theory Spec2Isabelle
  imports Main
begin

section \<open>Python strings and slices\<close>

text \<open>
  A Python \<open>str\<close> is a sequence of Unicode code points, and \<open>len\<close> counts code points.
  The model therefore takes a string to be the list of its code points, each a natural
  number, so that the non-ASCII section title of the chunker has length two as in Python.
\<close>

type_synonym pystr = "nat list"

definition str :: "string \<Rightarrow> pystr" where
  "str s = map of_char s"

text \<open>
  \<open>str.isspace\<close> for one code point: the code points CPython treats as whitespace, which
  are the ones \<open>str.strip()\<close> without an argument removes.
\<close>

definition isspace :: "nat \<Rightarrow> bool" where
  "isspace c \<longleftrightarrow>
     (0x09 \<le> c \<and> c \<le> 0x0D) \<or> (0x1C \<le> c \<and> c \<le> 0x20) \<or> c = 0x85 \<or> c = 0xA0 \<or>
     c = 0x1680 \<or> (0x2000 \<le> c \<and> c \<le> 0x200A) \<or> c = 0x2028 \<or> c = 0x2029 \<or>
     c = 0x202F \<or> c = 0x205F \<or> c = 0x3000"

definition lstrip :: "pystr \<Rightarrow> pystr" where
  "lstrip s = dropWhile isspace s"

definition rstrip :: "pystr \<Rightarrow> pystr" where
  "rstrip s = rev (dropWhile isspace (rev s))"

definition strip :: "pystr \<Rightarrow> pystr" where
  "strip s = rstrip (lstrip s)"

text \<open>
  The slice \<open>xs[start:stop]\<close>: a negative bound counts from the end, and both bounds are
  then clamped to \<open>0..len(xs)\<close>; a slice whose bounds cross is empty.
\<close>

definition slice_bound :: "nat \<Rightarrow> int \<Rightarrow> nat" where
  "slice_bound n i =
     (let j = (if i < 0 then i + int n else i)
      in if j < 0 then 0 else if int n < j then n else nat j)"

definition py_slice :: "'a list \<Rightarrow> int \<Rightarrow> int \<Rightarrow> 'a list" where
  "py_slice xs start stop =
     (let lo = slice_bound (length xs) start; hi = slice_bound (length xs) stop
      in take (hi - lo) (drop lo xs))"

section \<open>scripts/chunker.py\<close>

definition CHUNK_SIZE :: int where
  "CHUNK_SIZE = 500"

text \<open>A table-of-contents entry \<open>(level, title, start_page)\<close>.\<close>

type_synonym toc_entry = "int \<times> pystr \<times> int"

text \<open>The initial value of \<open>current_section\<close>: the two Hangul syllables U+AE30 U+D0C0.\<close>

definition default_section :: pystr where
  "default_section = [0xAE30, 0xD0C0]"

text \<open>
  The \<open>for\<close> loop of \<open>get_section_of_page\<close>, with \<open>current_section\<close> as the accumulator;
  the \<open>break\<close> is the branch that returns without looking at the rest.
\<close>

fun toc_loop :: "int \<Rightarrow> toc_entry list \<Rightarrow> pystr \<Rightarrow> pystr" where
  "toc_loop page_num [] current_section = current_section"
| "toc_loop page_num ((lvl, title, start_p) # rest) current_section =
     (if page_num + 1 \<ge> start_p then toc_loop page_num rest title else current_section)"

definition get_section_of_page :: "int \<Rightarrow> toc_entry list \<Rightarrow> pystr" where
  "get_section_of_page page_num toc = toc_loop page_num toc default_section"

text \<open>
  The \<open>while\<close> loop of \<open>chunk_text\<close> over the cleaned text. With a chunk size that is not
  positive the loop of the source never ends on a non-empty text, so the loop is a partial
  function and \<open>None\<close> stands for not returning.
\<close>

partial_function (option) chunk_loop ::
    "pystr \<Rightarrow> int \<Rightarrow> int \<Rightarrow> pystr list \<Rightarrow> pystr list option" where
  "chunk_loop text chunk_size start chunks =
     (if start < int (length text) then
        (let end_pos = start + chunk_size;
             chunk_str = strip (py_slice text start end_pos)
         in chunk_loop text chunk_size end_pos
              (if chunk_str \<noteq> [] then chunks @ [chunk_str] else chunks))
      else Some chunks)"

text \<open>
  \<open>basic_clean_text\<close> lives in \<open>src/utils/text_cleaning.py\<close>, which is not among the
  sources; it is the parameter \<open>basic_clean_text\<close> of every function that calls it, taken
  to be a function from strings to strings.
\<close>

definition chunk_text :: "(pystr \<Rightarrow> pystr) \<Rightarrow> pystr \<Rightarrow> int \<Rightarrow> pystr list option" where
  "chunk_text basic_clean_text text chunk_size =
     chunk_loop (basic_clean_text text) chunk_size 0 []"

text \<open>
  The input dictionary of \<open>process_extracted_file\<close> with the three keys its docstring
  lists, and the dictionary it appends for each chunk.
\<close>

record json_data =
  src_file_path :: pystr
  toc :: "toc_entry list"
  pages_text :: "pystr list"

record chunk_record =
  file_path :: pystr
  page_idx :: int
  section_title :: pystr
  chunk_index :: int
  content :: pystr

text \<open>\<open>enumerate\<close>, counting from a given index.\<close>

fun enumerate_from :: "int \<Rightarrow> 'a list \<Rightarrow> (int \<times> 'a) list" where
  "enumerate_from i [] = []"
| "enumerate_from i (x # xs) = (i, x) # enumerate_from (i + 1) xs"

text \<open>The inner loop over the chunks of one page, appending to \<open>chunked_result\<close>.\<close>

fun chunks_loop ::
    "pystr \<Rightarrow> int \<Rightarrow> pystr \<Rightarrow> (int \<times> pystr) list \<Rightarrow> chunk_record list \<Rightarrow> chunk_record list" where
  "chunks_loop pdf_path p_idx sec_title [] chunked_result = chunked_result"
| "chunks_loop pdf_path p_idx sec_title ((c_i, c_text) # rest) chunked_result =
     chunks_loop pdf_path p_idx sec_title rest
       (chunked_result @
          [\<lparr>file_path = pdf_path, page_idx = p_idx, section_title = sec_title,
            chunk_index = c_i, content = c_text\<rparr>])"

text \<open>The outer loop over the pages; it returns only if every call of \<open>chunk_text\<close> does.\<close>

fun pages_loop ::
    "(pystr \<Rightarrow> pystr) \<Rightarrow> pystr \<Rightarrow> toc_entry list \<Rightarrow> (int \<times> pystr) list \<Rightarrow>
     chunk_record list \<Rightarrow> chunk_record list option" where
  "pages_loop basic_clean_text pdf_path tc [] chunked_result = Some chunked_result"
| "pages_loop basic_clean_text pdf_path tc ((p_idx, text) # rest) chunked_result =
     (let sec_title = get_section_of_page p_idx tc
      in case chunk_text basic_clean_text text CHUNK_SIZE of
           None \<Rightarrow> None
         | Some splitted \<Rightarrow>
             pages_loop basic_clean_text pdf_path tc rest
               (chunks_loop pdf_path p_idx sec_title (enumerate_from 0 splitted)
                  chunked_result))"

definition process_extracted_file ::
    "(pystr \<Rightarrow> pystr) \<Rightarrow> 'a json_data_scheme \<Rightarrow> chunk_record list option" where
  "process_extracted_file basic_clean_text jd =
     pages_loop basic_clean_text (src_file_path jd) (toc jd)
       (enumerate_from 0 (pages_text jd)) []"

section \<open>web_demo.py: the extraction cache\<close>

text \<open>
  Only the part of \<open>web_demo.py\<close> that builds, stores and loads the two cache files is
  modelled. The files on disk are a partial map from paths to contents; the contents are
  of an arbitrary type \<open>'b\<close>. Directories are not modelled, so \<open>os.makedirs\<close> in
  \<open>ensure_user_dir\<close> leaves the map as it is.
\<close>

type_synonym 'b fs = "pystr \<rightharpoonup> 'b"

text \<open>
  The exceptions of the model: \<open>concurrent.futures.TimeoutError\<close>, the \<open>RuntimeError\<close> that
  \<open>process_pdf\<close> raises in its place, and any other subclass of \<open>Exception\<close>, with its
  text.
\<close>

datatype exn = TimeoutError | RuntimeError pystr | OtherException pystr

text \<open>
  How the wait \<open>future.result(timeout=timeout)\<close> for the worker thread ends: the call of
  the worker returned a value, or raised an exception, which the wait raises again, or
  the time was over before the worker was done. In the last case the worker goes on, and
  the flag says whether it ever ends: a Python thread cannot be stopped from outside.
\<close>

datatype 'a outcome = Returned 'a | Raised exn | WaitTimedOut bool

text \<open>
  A section is a dictionary with string keys. Of its values only strings are looked into,
  the others are of an arbitrary type \<open>'v\<close>.
\<close>

datatype 'v jval = JStr pystr | JOther 'v

type_synonym 'v sec_dict = "pystr \<rightharpoonup> 'v jval"

text \<open>
  What \<open>pdf_extractor.extract_pdf_content\<close> returns: the dictionary the chunker reads,
  with the key \<open>"sections"\<close> that \<open>process_pdf\<close> passes on.
\<close>

record 'raw pdf_content = json_data +
  sections :: 'raw

text \<open>One entry of \<open>_USER_DB["users"]\<close>.\<close>

record user_record =
  password :: pystr
  uploads :: "pystr list"
  prompts :: "pystr list"

text \<open>
  Everything \<open>web_demo.py\<close> calls that is not under \<open>src/\<close>, as the fields of one record:
  the functions of \<open>os.path\<close>; \<open>json.load\<close> and \<open>pickle.load\<close> on the contents of a file,
  which raise or return a value, \<open>None\<close> included; \<open>json.dump\<close> and \<open>pickle.dump\<close>, which
  give the contents written and the exception raised after writing them, if any; the
  outcome of \<open>future.result(timeout=timeout)\<close> for the extraction of a path with a given
  timeout; the two index builders; and \<open>basic_clean_text\<close>. The extraction and the builders are taken
  not to write the files of the model, and a cache file that loads is taken to hold a list
  of dictionaries, respectively a list, or \<open>None\<close>.
\<close>

record ('b, 'v, 'c, 'raw) env =
  path_join :: "pystr \<Rightarrow> pystr \<Rightarrow> pystr"
  path_basename :: "pystr \<Rightarrow> pystr"
  path_splitext :: "pystr \<Rightarrow> pystr \<times> pystr"
  json_load :: "'b \<Rightarrow> exn + 'v sec_dict list option"
  pickle_load :: "'b \<Rightarrow> exn + 'c list option"
  json_dump :: "'v sec_dict list \<Rightarrow> 'b \<times> exn option"
  pickle_dump :: "'c list \<Rightarrow> 'b \<times> exn option"
  future_result :: "pystr \<Rightarrow> int \<Rightarrow> 'raw pdf_content outcome"
  build_chunk_index :: "chunk_record list \<Rightarrow> exn + 'c list"
  build_section_reps :: "'raw \<Rightarrow> 'c list \<Rightarrow> exn + 'v sec_dict list"
  clean_text :: "pystr \<Rightarrow> pystr"

definition EXTRACT_TIMEOUT :: int where
  "EXTRACT_TIMEOUT = 120"

text \<open>\<open>str(n)\<close> for a length.\<close>

fun decimal :: "nat \<Rightarrow> pystr" where
  "decimal n = (if n < 10 then [48 + n] else decimal (n div 10) @ [48 + n mod 10])"

declare decimal.simps [simp del]

definition ensure_user_dir :: "('b, 'v, 'c, 'raw) env \<Rightarrow> pystr \<Rightarrow> pystr" where
  "ensure_user_dir E username =
     path_join E (path_join E (str ''data'') (str ''user_uploads'')) username"

text \<open>\<open>_cache_paths\<close>, \<open>_save_cache\<close> and \<open>_load_cache\<close>, without the leading underscore.\<close>

definition cache_paths :: "('b, 'v, 'c, 'raw) env \<Rightarrow> pystr \<Rightarrow> pystr \<Rightarrow> pystr \<times> pystr" where
  "cache_paths E user_dir pdf_basename =
     (path_join E user_dir (pdf_basename @ str ''_sections.json''),
      path_join E user_dir (pdf_basename @ str ''_index.pkl''))"

text \<open>
  \<open>_save_cache\<close> writes the sections file, then the index file. Opening a file for writing
  replaces its contents; an exception of a \<open>dump\<close> leaves what was written until then and
  ends the function.
\<close>

definition save_cache ::
    "('b, 'v, 'c, 'raw) env \<Rightarrow> 'b fs \<Rightarrow> pystr \<Rightarrow> pystr \<Rightarrow> 'v sec_dict list \<Rightarrow> 'c list \<Rightarrow>
     (exn + unit) \<times> 'b fs" where
  "save_cache E files user_dir pdf_basename secs chunk_idx =
     (let (sec_path, idx_path) = cache_paths E user_dir pdf_basename;
          (sec_bytes, sec_exn) = json_dump E secs;
          files1 = files(sec_path \<mapsto> sec_bytes)
      in case sec_exn of
           Some e \<Rightarrow> (Inl e, files1)
         | None \<Rightarrow>
             (let (idx_bytes, idx_exn) = pickle_dump E chunk_idx;
                  files2 = files1(idx_path \<mapsto> idx_bytes)
              in case idx_exn of
                   Some e \<Rightarrow> (Inl e, files2)
                 | None \<Rightarrow> (Inr (), files2)))"

text \<open>The body of the \<open>try\<close> in \<open>_load_cache\<close>: both loads, stopping at the first exception.\<close>

definition load_both ::
    "('b, 'v, 'c, 'raw) env \<Rightarrow> 'b \<Rightarrow> 'b \<Rightarrow> exn + ('v sec_dict list option \<times> 'c list option)" where
  "load_both E sec_bytes idx_bytes =
     (case json_load E sec_bytes of
        Inl e \<Rightarrow> Inl e
      | Inr secs \<Rightarrow>
          (case pickle_load E idx_bytes of
             Inl e \<Rightarrow> Inl e
           | Inr chunk_idx \<Rightarrow> Inr (secs, chunk_idx)))"

definition load_cache ::
    "('b, 'v, 'c, 'raw) env \<Rightarrow> 'b fs \<Rightarrow> pystr \<Rightarrow> pystr \<Rightarrow>
     'v sec_dict list option \<times> 'c list option" where
  "load_cache E files user_dir pdf_basename =
     (let (sec_path, idx_path) = cache_paths E user_dir pdf_basename
      in case (files sec_path, files idx_path) of
           (Some sec_bytes, Some idx_bytes) \<Rightarrow>
             (case load_both E sec_bytes idx_bytes of
                Inr r \<Rightarrow> r
              | Inl e \<Rightarrow> (None, None))
         | _ \<Rightarrow> (None, None))"

text \<open>
  \<open>process_pdf\<close>. Its result is \<open>None\<close> if the call never ends, else the exception raised
  or the pair returned, with the files as the call leaves them. The \<open>try\<close> encloses the
  whole \<open>with ThreadPoolExecutor(...)\<close> block, and leaving that block, also by the
  \<open>TimeoutError\<close> of the wait, calls \<open>shutdown(wait=True)\<close>, which waits for the worker
  thread. So the \<open>except\<close> clause raises the \<open>RuntimeError\<close> only once the extraction has
  ended, and when the extraction never ends the call of \<open>process_pdf\<close> does not end either.
  An exception of the class \<open>TimeoutError\<close> that the extraction raises by itself is caught
  by the same clause.
\<close>

definition process_pdf ::
    "('b, 'v, 'c, 'raw) env \<Rightarrow> 'b fs \<Rightarrow> pystr \<Rightarrow> pystr \<Rightarrow> int \<Rightarrow>
     ((exn + 'v sec_dict list \<times> 'c list) \<times> 'b fs) option" where
  "process_pdf E files pdf_path user_dir timeout =
     (let pdf_basename = fst (path_splitext E (path_basename E pdf_path))
      in case future_result E pdf_path timeout of
           WaitTimedOut worker_ends \<Rightarrow>
             if worker_ends
             then Some (Inl (RuntimeError (str ''PDF extraction timed out (over 2 minutes).'')),
                        files)
             else None
         | Raised e \<Rightarrow>
             if e = TimeoutError
             then Some (Inl (RuntimeError (str ''PDF extraction timed out (over 2 minutes).'')),
                        files)
             else Some (Inl e, files)
         | Returned extracted \<Rightarrow>
             (case process_extracted_file (clean_text E) extracted of
                None \<Rightarrow> None
              | Some chunks \<Rightarrow>
                  (case build_chunk_index E chunks of
                     Inl e \<Rightarrow> Some (Inl e, files)
                   | Inr chunk_idx \<Rightarrow>
                       (case build_section_reps E (sections extracted) chunk_idx of
                          Inl e \<Rightarrow> Some (Inl e, files)
                        | Inr secs \<Rightarrow>
                            (case save_cache E files user_dir pdf_basename secs chunk_idx of
                               (Inl e, files') \<Rightarrow> Some (Inl e, files')
                             | (Inr u, files') \<Rightarrow> Some (Inr (secs, chunk_idx), files'))))))"

text \<open>
  \<open>load_existing_pdf\<close>. A \<open>RuntimeError\<close> of \<open>process_pdf\<close> becomes the status message,
  any other exception goes on to the caller.
\<close>

definition load_existing_pdf ::
    "('b, 'v, 'c, 'raw) env \<Rightarrow> 'b fs \<Rightarrow> pystr \<Rightarrow> pystr \<Rightarrow>
     ((exn + 'v sec_dict list option \<times> 'c list option \<times> pystr) \<times> 'b fs) option" where
  "load_existing_pdf E files selected_name username =
     (if username = [] then Some (Inr (None, None, str ''Please log in first.''), files)
      else if selected_name = [] then
        Some (Inr (None, None, str ''No previous PDF selected.''), files)
      else
        (let user_dir = ensure_user_dir E username;
             pdf_path = path_join E user_dir selected_name
         in if files pdf_path = None then Some (Inr (None, None, str ''File not found.''), files)
            else
              (let pdf_basename = fst (path_splitext E selected_name);
                   (secs, chunk_idx) = load_cache E files user_dir pdf_basename
               in if secs = None \<or> chunk_idx = None then
                    (case process_pdf E files pdf_path user_dir EXTRACT_TIMEOUT of
                       None \<Rightarrow> None
                     | Some (Inl e, files') \<Rightarrow>
                         (case e of
                            RuntimeError msg \<Rightarrow> Some (Inr (None, None, msg), files')
                          | _ \<Rightarrow> Some (Inl e, files'))
                     | Some (Inr (secs', chunk_idx'), files') \<Rightarrow>
                         Some (Inr (Some secs', Some chunk_idx',
                                    str ''Processed '' @ selected_name), files'))
                  else Some (Inr (secs, chunk_idx,
                                  str ''Loaded cached data for '' @ selected_name), files))))"

text \<open>
  The loop of \<open>load_all_cached_pdfs\<close> over the uploads, with \<open>all_sections\<close> and
  \<open>all_chunks\<close> as accumulators; \<open>continue\<close> is the branch that keeps both.
\<close>

fun uploads_loop ::
    "('b, 'v, 'c, 'raw) env \<Rightarrow> 'b fs \<Rightarrow> pystr \<Rightarrow> pystr list \<Rightarrow>
     'v sec_dict list \<times> 'c list \<Rightarrow> 'v sec_dict list \<times> 'c list" where
  "uploads_loop E files user_dir [] acc = acc"
| "uploads_loop E files user_dir (pdf_path # rest) (all_sections, all_chunks) =
     (let pdf_basename = fst (path_splitext E (path_basename E pdf_path))
      in case load_cache E files user_dir pdf_basename of
           (Some secs, Some chunk_idx) \<Rightarrow>
             (let tagged_sections =
                    map (\<lambda>sec. sec(str ''file_name'' \<mapsto> JStr pdf_basename)) secs
              in uploads_loop E files user_dir rest
                   (all_sections @ tagged_sections, all_chunks @ chunk_idx))
         | _ \<Rightarrow> uploads_loop E files user_dir rest (all_sections, all_chunks))"

definition load_all_cached_pdfs ::
    "('b, 'v, 'c, 'raw) env \<Rightarrow> 'b fs \<Rightarrow> (pystr \<rightharpoonup> user_record) \<Rightarrow> pystr \<Rightarrow>
     'v sec_dict list option \<times> 'c list option \<times> pystr" where
  "load_all_cached_pdfs E files users username =
     (if username = [] then (None, None, str ''Please log in first.'')
      else
        (let user_dir = ensure_user_dir E username;
             ups = (case users username of None \<Rightarrow> [] | Some u \<Rightarrow> uploads u)
         in if ups = [] then (None, None, str ''No cached PDFs were found.'')
            else
              (let (all_sections, all_chunks) = uploads_loop E files user_dir ups ([], [])
               in if all_sections = [] then
                    (None, None, str ''No cached data found. Process PDFs first.'')
                  else
                    (Some all_sections, Some all_chunks,
                     str ''Loaded cached data for '' @ decimal (length all_sections)
                     @ str '' sections across '' @ decimal (length ups) @ str '' PDFs''))))"

section \<open>The specification's reading of the chunker\<close>

text \<open>
  The definitions of this section are not translations of code. They state, in the words
  of the specification, what the code is compared with: the entries of the table of
  contents that have started at a page, the non-overlapping windows of a text, the
  whitespace a trim removes, and the records one page gives rise to.
\<close>

definition toc_title :: "toc_entry \<Rightarrow> pystr" where
  "toc_title e = fst (snd e)"

definition toc_start :: "toc_entry \<Rightarrow> int" where
  "toc_start e = snd (snd e)"

text \<open>The entries whose 1-based start page is at most \<open>p + 1\<close>.\<close>

definition started :: "int \<Rightarrow> toc_entry list \<Rightarrow> toc_entry list" where
  "started p tc = filter (\<lambda>e. toc_start e \<le> p + 1) tc"

text \<open>The text cut into consecutive windows of \<open>n\<close> characters, the last one shorter.\<close>

function spec_windows :: "nat \<Rightarrow> 'a list \<Rightarrow> 'a list list" where
  "spec_windows n s = (if n = 0 \<or> s = [] then [] else take n s # spec_windows n (drop n s))"
  by pat_completeness auto
termination
  by (relation "measure (\<lambda>(n, s). length s)") auto

declare spec_windows.simps [simp del]

text \<open>The whitespace a trim removes at the front and at the back of a window.\<close>

definition leading_ws :: "pystr \<Rightarrow> pystr" where
  "leading_ws w = takeWhile isspace w"

definition trailing_ws :: "pystr \<Rightarrow> pystr" where
  "trailing_ws w = rev (takeWhile isspace (rev (lstrip w)))"

text \<open>Every window trimmed, the empty results dropped.\<close>

definition spec_chunks :: "nat \<Rightarrow> pystr \<Rightarrow> pystr list" where
  "spec_chunks n s = filter (\<lambda>c. c \<noteq> []) (map strip (spec_windows n s))"

text \<open>
  The records of one page: one per chunk of the cleaned page text, numbered from 0, each
  with the page's index and section title.
\<close>

definition spec_page_records ::
    "(pystr \<Rightarrow> pystr) \<Rightarrow> pystr \<Rightarrow> toc_entry list \<Rightarrow> int \<Rightarrow> pystr \<Rightarrow> chunk_record list" where
  "spec_page_records clean fp tc i text =
     map (\<lambda>(j, c). \<lparr>file_path = fp, page_idx = i, section_title = get_section_of_page i tc,
                     chunk_index = j, content = c\<rparr>)
       (enumerate_from 0 (spec_chunks 500 (clean text)))"

text \<open>The order of the emitted records: by page, and within a page by chunk index.\<close>

definition record_before :: "chunk_record \<Rightarrow> chunk_record \<Rightarrow> bool" where
  "record_before r s \<longleftrightarrow>
     page_idx r < page_idx s \<or> (page_idx r = page_idx s \<and> chunk_index r < chunk_index s)"

section \<open>The specification's reading of the cache\<close>

text \<open>A cache file is unusable when it is missing or when loading it raises.\<close>

definition file_fails :: "('b \<Rightarrow> exn + 'a) \<Rightarrow> 'b option \<Rightarrow> bool" where
  "file_fails load f = (case f of None \<Rightarrow> True | Some b \<Rightarrow> isl (load b))"

text \<open>A section with the document tag: the key \<open>"file_name"\<close> set to the document's name.\<close>

definition tag_section :: "pystr \<Rightarrow> 'v sec_dict \<Rightarrow> 'v sec_dict" where
  "tag_section pdf_basename sec = sec(str ''file_name'' \<mapsto> JStr pdf_basename)"

text \<open>
  The cached index of one uploaded document, if both of its parts load to a value, and the
  merge of the specification: over the uploads in order, the tagged sections of the cached
  documents concatenated, and their chunk indexes concatenated.
\<close>

definition doc_cache ::
    "('b, 'v, 'c, 'raw) env \<Rightarrow> 'b fs \<Rightarrow> pystr \<Rightarrow> pystr \<Rightarrow>
     (pystr \<times> 'v sec_dict list \<times> 'c list) option" where
  "doc_cache E files user_dir pdf_path =
     (let b = fst (path_splitext E (path_basename E pdf_path))
      in case load_cache E files user_dir b of
           (Some secs, Some idx) \<Rightarrow> Some (b, secs, idx)
         | _ \<Rightarrow> None)"

definition spec_merge ::
    "('b, 'v, 'c, 'raw) env \<Rightarrow> 'b fs \<Rightarrow> pystr \<Rightarrow> pystr list \<Rightarrow> 'v sec_dict list \<times> 'c list" where
  "spec_merge E files user_dir ups =
     (let docs = List.map_filter (doc_cache E files user_dir) ups
      in (concat (map (\<lambda>(b, secs, idx). map (tag_section b) secs) docs),
          concat (map (\<lambda>(b, secs, idx). idx) docs)))"

section \<open>An example installation\<close>

text \<open>
  Concrete values for the parameters of the cache model, used to run the functions: POSIX
  paths, files that hold a list of sections, a chunk index, a PDF or bytes that do not
  parse, and builders that return the extracted sections and the length of every chunk.
\<close>

datatype demo_file =
  SectionsJson "nat sec_dict list option" | IndexPickle "nat list option" | PdfBytes | Garbled

definition demo_env ::
    "(pystr \<Rightarrow> int \<Rightarrow> (nat sec_dict list) pdf_content outcome) \<Rightarrow>
     (demo_file, nat, nat, nat sec_dict list) env" where
  "demo_env fr =
     \<lparr>path_join = (\<lambda>a b. a @ str ''/'' @ b),
      path_basename = (\<lambda>p. rev (takeWhile (\<lambda>c. c \<noteq> 47) (rev p))),
      path_splitext = (\<lambda>p. if 46 \<in> set p
                            then (rev (drop 1 (dropWhile (\<lambda>c. c \<noteq> 46) (rev p))),
                                  46 # rev (takeWhile (\<lambda>c. c \<noteq> 46) (rev p)))
                            else (p, [])),
      json_load = (\<lambda>b. case b of SectionsJson s \<Rightarrow> Inr s
                                | _ \<Rightarrow> Inl (OtherException (str ''JSONDecodeError''))),
      pickle_load = (\<lambda>b. case b of IndexPickle i \<Rightarrow> Inr i
                                  | _ \<Rightarrow> Inl (OtherException (str ''UnpicklingError''))),
      json_dump = (\<lambda>s. (SectionsJson (Some s), None)),
      pickle_dump = (\<lambda>i. (IndexPickle (Some i), None)),
      future_result = fr,
      build_chunk_index = (\<lambda>chunks. Inr (map (\<lambda>r. length (content r)) chunks)),
      build_section_reps = (\<lambda>raw idx. Inr raw),
      clean_text = (\<lambda>s. s)\<rparr>"

definition demo_extracted :: "(nat sec_dict list) pdf_content" where
  "demo_extracted =
     \<lparr>src_file_path = str ''data/user_uploads/al/a.pdf'', toc = [], pages_text = [str ''ab''],
      sections = [[str ''title'' \<mapsto> JStr (str ''Intro'')]]\<rparr>"

definition demo_corrupt_files :: "demo_file fs" where
  "demo_corrupt_files =
     [str ''data/user_uploads/al/a.pdf'' \<mapsto> PdfBytes,
      str ''data/user_uploads/al/a_sections.json'' \<mapsto> Garbled,
      str ''data/user_uploads/al/a_index.pkl'' \<mapsto> IndexPickle (Some [3])]"

definition demo_cached_files :: "demo_file fs" where
  "demo_cached_files =
     [str ''data/user_uploads/al/a_sections.json''
        \<mapsto> SectionsJson (Some [[str ''title'' \<mapsto> JStr (str ''Intro'')]]),
      str ''data/user_uploads/al/a_index.pkl'' \<mapsto> IndexPickle (Some [1, 2]),
      str ''data/user_uploads/al/b_sections.json''
        \<mapsto> SectionsJson (Some [[str ''title'' \<mapsto> JStr (str ''Methods'')]]),
      str ''data/user_uploads/al/b_index.pkl'' \<mapsto> IndexPickle (Some [3])]"

definition demo_users :: "pystr \<rightharpoonup> user_record" where
  "demo_users =
     [str ''al'' \<mapsto> \<lparr>password = str ''x'',
                       uploads = [str ''data/user_uploads/al/a.pdf'',
                                  str ''data/user_uploads/al/c.pdf'',
                                  str ''data/user_uploads/al/b.pdf''],
                       prompts = []\<rparr>]"

definition demo_no_section_files :: "demo_file fs" where
  "demo_no_section_files =
     [str ''data/user_uploads/al/a_sections.json'' \<mapsto> SectionsJson (Some []),
      str ''data/user_uploads/al/a_index.pkl'' \<mapsto> IndexPickle (Some [7])]"

definition demo_one_upload :: "pystr \<rightharpoonup> user_record" where
  "demo_one_upload =
     [str ''al'' \<mapsto> \<lparr>password = str ''x'', uploads = [str ''data/user_uploads/al/a.pdf''],
                       prompts = []\<rparr>]"

section \<open>Section assignment\<close>

lemma toc_loop_sorted:
  "sorted (map toc_start tc) \<Longrightarrow>
   toc_loop p tc cur = (if started p tc = [] then cur else toc_title (last (started p tc)))"
proof (induction tc arbitrary: cur)
  case Nil
  then show ?case by (simp add: started_def)
next
  case (Cons e rest)
  obtain lvl title start_p where e: "e = (lvl, title, start_p)" by (cases e) auto
  show ?case
  proof (cases "start_p \<le> p + 1")
    case True
    with Cons e show ?thesis by (simp add: started_def toc_start_def toc_title_def)
  next
    case False
    with Cons.prems e have "\<forall>x \<in> set rest. \<not> toc_start x \<le> p + 1"
      by (auto simp: toc_start_def)
    then have "started p rest = []" by (simp add: started_def)
    with False e show ?thesis by (simp add: started_def toc_start_def)
  qed
qed

text \<open>
  Claim C1. For a table of contents sorted by start page, the section title of page \<open>p\<close>
  is the title of the last entry whose start page is at most \<open>p + 1\<close>, and the sentinel
  title when there is no such entry; a page before the first entry's start page, and
  every page of an empty table of contents, gets the sentinel title.
\<close>

theorem get_section_of_page_sorted:
  assumes "sorted (map toc_start tc)"
  shows "get_section_of_page p tc =
           (if started p tc = [] then default_section else toc_title (last (started p tc)))
         \<and> ((tc = [] \<or> p + 1 < toc_start (hd tc)) \<longrightarrow>
              get_section_of_page p tc = default_section)"
proof -
  have a: "get_section_of_page p tc =
           (if started p tc = [] then default_section else toc_title (last (started p tc)))"
    using assms by (simp add: get_section_of_page_def toc_loop_sorted)
  have b: "get_section_of_page p tc = default_section"
    if "tc = [] \<or> p + 1 < toc_start (hd tc)"
    using that by (cases tc) (auto simp: get_section_of_page_def toc_start_def)
  from a b show ?thesis by blast
qed

theorem get_section_of_page_sorted_witness:
  "sorted (map toc_start [(1, str ''Intro'', 1), (1, str ''Methods'', 2), (2, str ''Data'', 5)])
   \<and> get_section_of_page 2 [(1, str ''Intro'', 1), (1, str ''Methods'', 2), (2, str ''Data'', 5)]
       = str ''Methods''
   \<and> get_section_of_page 0 [(1, str ''Intro'', 2)] = default_section"
  using get_section_of_page_sorted
          [of "[(1, str ''Intro'', 1), (1, str ''Methods'', 2), (2, str ''Data'', 5)]" 2]
        get_section_of_page_sorted [of "[(1, str ''Intro'', 2)]" 0]
  by (simp add: toc_start_def toc_title_def started_def)

section \<open>Trimming, windows and the loop of chunk_text\<close>

lemma strip_decomp: "leading_ws w @ strip w @ trailing_ws w = w"
proof -
  have "rev (dropWhile isspace (rev u)) @ rev (takeWhile isspace (rev u)) = u" for u :: pystr
    by (metis rev_append rev_rev_ident takeWhile_dropWhile_id)
  then show ?thesis
    by (simp add: leading_ws_def strip_def trailing_ws_def rstrip_def lstrip_def)
qed

lemma leading_ws_space: "c \<in> set (leading_ws w) \<Longrightarrow> isspace c"
  by (auto simp: leading_ws_def dest: set_takeWhileD)

lemma trailing_ws_space: "c \<in> set (trailing_ws w) \<Longrightarrow> isspace c"
  by (auto simp: trailing_ws_def dest: set_takeWhileD)

lemma length_strip: "length (strip w) \<le> length w"
proof -
  have "length (leading_ws w @ strip w @ trailing_ws w) = length w"
    by (simp only: strip_decomp)
  then show ?thesis by simp
qed

lemma strip_id:
  assumes "w \<noteq> []" "\<not> isspace (hd w)" "\<not> isspace (last w)"
  shows "strip w = w"
proof -
  from assms have l: "lstrip w = w" by (cases w) (auto simp: lstrip_def)
  from assms have "\<not> isspace (hd (rev w))" by (simp add: hd_rev)
  with assms have "dropWhile isspace (rev w) = rev w" by (cases "rev w") auto
  with l show ?thesis by (simp add: strip_def rstrip_def)
qed

lemma strip_empty_iff: "strip w = [] \<longleftrightarrow> (\<forall>c \<in> set w. isspace c)"
proof
  assume "strip w = []"
  then have "w = leading_ws w @ trailing_ws w" using strip_decomp [of w] by simp
  then show "\<forall>c \<in> set w. isspace c"
    by (metis Un_iff leading_ws_space set_append trailing_ws_space)
next
  assume "\<forall>c \<in> set w. isspace c"
  then have "lstrip w = []" by (simp add: lstrip_def dropWhile_eq_Nil_conv)
  then show "strip w = []" by (simp add: strip_def rstrip_def)
qed

lemma filter_nonspace_strip:
  "filter (\<lambda>c. \<not> isspace c) (strip w) = filter (\<lambda>c. \<not> isspace c) w"
proof -
  have a: "filter (\<lambda>c. \<not> isspace c) (leading_ws w) = []"
    by (auto simp: filter_empty_conv dest: leading_ws_space)
  have b: "filter (\<lambda>c. \<not> isspace c) (trailing_ws w) = []"
    by (auto simp: filter_empty_conv dest: trailing_ws_space)
  have "filter (\<lambda>c. \<not> isspace c) (leading_ws w @ strip w @ trailing_ws w)
        = filter (\<lambda>c. \<not> isspace c) w"
    by (simp only: strip_decomp)
  with a b show ?thesis by simp
qed

lemma concat_spec_windows: "0 < n \<Longrightarrow> concat (spec_windows n s) = s"
proof (induction n s rule: spec_windows.induct)
  case (1 n s)
  then show ?case by (subst spec_windows.simps) auto
qed

lemma spec_windows_length_le: "w \<in> set (spec_windows n s) \<Longrightarrow> length w \<le> n \<and> w \<noteq> []"
proof (induction n s rule: spec_windows.induct)
  case (1 n s)
  show ?case
  proof (cases "n = 0 \<or> s = []")
    case True
    then have "spec_windows n s = []" by (subst spec_windows.simps) simp
    with "1.prems" show ?thesis by simp
  next
    case False
    then have sw: "spec_windows n s = take n s # spec_windows n (drop n s)"
      by (subst spec_windows.simps) simp
    from "1.prems" sw have "w = take n s \<or> w \<in> set (spec_windows n (drop n s))" by simp
    then show ?thesis
    proof
      assume "w = take n s"
      with False show ?thesis by simp
    next
      assume "w \<in> set (spec_windows n (drop n s))"
      with False show ?thesis by (rule "1.IH")
    qed
  qed
qed

lemma spec_windows_butlast: "w \<in> set (butlast (spec_windows n s)) \<Longrightarrow> length w = n"
proof (induction n s rule: spec_windows.induct)
  case (1 n s)
  show ?case
  proof (cases "n = 0 \<or> s = []")
    case True
    then have "spec_windows n s = []" by (subst spec_windows.simps) simp
    with "1.prems" show ?thesis by simp
  next
    case False
    then have sw: "spec_windows n s = take n s # spec_windows n (drop n s)"
      by (subst spec_windows.simps) simp
    show ?thesis
    proof (cases "spec_windows n (drop n s) = []")
      case True
      with "1.prems" sw show ?thesis by simp
    next
      case ne: False
      have "spec_windows n [] = []" by (subst spec_windows.simps) simp
      with ne have "drop n s \<noteq> []" by auto
      then have "length (take n s) = n" by simp
      with "1.prems" sw ne "1.IH" [OF False] show ?thesis by auto
    qed
  qed
qed

lemma py_slice_window:
  assumes "k < length xs" "0 < cs"
  shows "py_slice xs (int k) (int k + cs) = take (nat cs) (drop k xs)"
proof -
  have lo: "slice_bound (length xs) (int k) = k"
    using assms by (simp add: slice_bound_def)
  have hi: "slice_bound (length xs) (int k + cs) = min (length xs) (k + nat cs)"
    using assms by (auto simp: slice_bound_def Let_def)
  have "take (min (length xs) (k + nat cs) - k) (drop k xs) = take (nat cs) (drop k xs)"
    using assms by (simp add: min_def)
  with lo hi show ?thesis by (simp add: py_slice_def)
qed

lemma chunk_loop_windows:
  assumes "0 < cs"
  shows "chunk_loop text cs (int k) chunks =
           Some (chunks @ spec_chunks (nat cs) (drop k text))"
proof (induction "length text - k" arbitrary: k chunks rule: less_induct)
  case less
  show ?case
  proof (cases "k < length text")
    case False
    then have "spec_windows (nat cs) (drop k text) = []"
      by (subst spec_windows.simps) simp
    with False show ?thesis
      by (subst chunk_loop.simps) (simp add: spec_chunks_def)
  next
    case True
    let ?w = "take (nat cs) (drop k text)"
    have sl: "py_slice text (int k) (int k + cs) = ?w"
      using True assms by (rule py_slice_window)
    have nx: "int k + cs = int (k + nat cs)" using assms by simp
    have sl': "py_slice text (int k) (int (k + nat cs)) = ?w" unfolding nx [symmetric] by (rule sl)
    have dec: "length text - (k + nat cs) < length text - k" using True assms by simp
    have sw: "spec_windows (nat cs) (drop k text) = ?w # spec_windows (nat cs) (drop (k + nat cs) text)"
      using True assms by (subst spec_windows.simps) (simp add: add.commute)
    have "chunk_loop text cs (int k) chunks =
            chunk_loop text cs (int (k + nat cs))
              (if strip ?w \<noteq> [] then chunks @ [strip ?w] else chunks)"
      using True by (subst chunk_loop.simps) (simp only: of_nat_less_iff if_True Let_def sl sl' nx)
    also have "\<dots> = Some ((if strip ?w \<noteq> [] then chunks @ [strip ?w] else chunks)
                        @ spec_chunks (nat cs) (drop (k + nat cs) text))"
      using dec by (rule less)
    also have "\<dots> = Some (chunks @ spec_chunks (nat cs) (drop k text))"
      by (simp add: spec_chunks_def sw)
    finally show ?thesis .
  qed
qed

lemma chunk_text_spec:
  "0 < cs \<Longrightarrow> chunk_text clean text cs = Some (spec_chunks (nat cs) (clean text))"
  using chunk_loop_windows [of cs "clean text" 0 "[]"] by (simp add: chunk_text_def)

lemma chunk_text_empty: "clean text = [] \<Longrightarrow> chunk_text clean text cs = Some []"
  by (simp add: chunk_text_def chunk_loop.simps)

section \<open>Coverage of the cleaned text\<close>

lemma filter_nonspace_chunks:
  "filter (\<lambda>c. \<not> isspace c) (concat (filter (\<lambda>c. c \<noteq> []) (map strip ws)))
   = filter (\<lambda>c. \<not> isspace c) (concat ws)"
proof (induction ws)
  case Nil
  show ?case by simp
next
  case (Cons a ws)
  have "filter (\<lambda>c. \<not> isspace c) a = filter (\<lambda>c. \<not> isspace c) (strip a)"
    by (simp only: filter_nonspace_strip)
  with Cons show ?case by (cases "strip a = []") simp_all
qed

text \<open>
  Claim C2. For a positive chunk size, \<open>chunk_text\<close> returns the trimmed non-empty windows
  of the cleaned text in order; the windows themselves concatenate to the cleaned text, and
  each window is its trimmed form between a run of leading and a run of trailing whitespace.
  So the chunks in order are the cleaned text with nothing lost or duplicated but the
  whitespace the trimming removed, all of a window when the window is whitespace only; in
  particular the non-whitespace characters of the chunks are those of the cleaned text, in
  the same order.
\<close>

theorem chunk_text_coverage:
  assumes "0 < chunk_size"
  shows "chunk_text clean text chunk_size
           = Some (filter (\<lambda>c. c \<noteq> []) (map strip (spec_windows (nat chunk_size) (clean text))))
         \<and> concat (map (\<lambda>w. leading_ws w @ strip w @ trailing_ws w)
                    (spec_windows (nat chunk_size) (clean text))) = clean text
         \<and> (\<forall>w \<in> set (spec_windows (nat chunk_size) (clean text)).
               (\<forall>c \<in> set (leading_ws w). isspace c) \<and> (\<forall>c \<in> set (trailing_ws w). isspace c))
         \<and> (\<forall>cs. chunk_text clean text chunk_size = Some cs \<longrightarrow>
               filter (\<lambda>c. \<not> isspace c) (concat cs) = filter (\<lambda>c. \<not> isspace c) (clean text))"
proof -
  let ?ws = "spec_windows (nat chunk_size) (clean text)"
  have a: "chunk_text clean text chunk_size = Some (filter (\<lambda>c. c \<noteq> []) (map strip ?ws))"
    using assms by (simp add: chunk_text_spec spec_chunks_def)
  have cc: "concat ?ws = clean text" using assms by (simp add: concat_spec_windows)
  have b: "concat (map (\<lambda>w. leading_ws w @ strip w @ trailing_ws w) ?ws) = clean text"
    using cc by (simp only: strip_decomp map_ident)
  have c: "\<forall>w \<in> set ?ws.
             (\<forall>c \<in> set (leading_ws w). isspace c) \<and> (\<forall>c \<in> set (trailing_ws w). isspace c)"
    by (auto dest: leading_ws_space trailing_ws_space)
  have d: "filter (\<lambda>c. \<not> isspace c) (concat cs) = filter (\<lambda>c. \<not> isspace c) (clean text)"
    if "chunk_text clean text chunk_size = Some cs" for cs
    using that a cc filter_nonspace_chunks [of ?ws] by simp
  from a b c d show ?thesis by blast
qed

theorem chunk_text_coverage_witness:
  "(0::int) < 3
   \<and> chunk_text (\<lambda>s. s) (str ''ab    cd'') 3 = Some [str ''ab'', str ''cd'']
   \<and> filter (\<lambda>c. \<not> isspace c) (concat [str ''ab'', str ''cd''])
       = filter (\<lambda>c. \<not> isspace c) (str ''ab    cd'')"
  using chunk_text_coverage [of 3 "\<lambda>s. s" "str ''ab    cd''"]
  by (simp add: str_def spec_windows.simps strip_def lstrip_def rstrip_def isspace_def)

section \<open>The character budget\<close>

lemma strip_replicate: "\<not> isspace c \<Longrightarrow> strip (replicate n c) = replicate n c"
proof (cases "n = 0")
  case True
  then show ?thesis by (simp add: strip_def lstrip_def rstrip_def)
next
  case False
  assume "\<not> isspace c"
  with False show ?thesis by (intro strip_id) (simp_all add: hd_replicate last_replicate)
qed

text \<open>
  Claim C5. With the chunk size 500 of the module, \<open>chunk_text\<close> returns, and every chunk
  it returns has at most 500 characters. Every window but the last has exactly 500
  characters, so a chunk cut from such a window is shorter than 500 only by the whitespace
  that the trimming removed from the window's two ends.
\<close>

theorem chunk_text_budget:
  "\<exists>cs. chunk_text clean text CHUNK_SIZE = Some cs
      \<and> cs = filter (\<lambda>c. c \<noteq> []) (map strip (spec_windows 500 (clean text)))
      \<and> (\<forall>c \<in> set cs. length c \<le> 500)
      \<and> (\<forall>w \<in> set (butlast (spec_windows 500 (clean text))).
            length (leading_ws w) + length (strip w) + length (trailing_ws w) = 500)"
proof -
  let ?ws = "spec_windows 500 (clean text)"
  let ?cs = "filter (\<lambda>c. c \<noteq> []) (map strip ?ws)"
  have a: "chunk_text clean text CHUNK_SIZE = Some ?cs"
    by (simp add: chunk_text_spec CHUNK_SIZE_def spec_chunks_def)
  have b: "length c \<le> 500" if "c \<in> set ?cs" for c
  proof -
    from that obtain w where w: "w \<in> set ?ws" "c = strip w" by auto
    from w(1) have "length w \<le> 500" by (auto dest: spec_windows_length_le)
    with length_strip [of w] w(2) show ?thesis by simp
  qed
  have c: "length (leading_ws w) + length (strip w) + length (trailing_ws w) = 500"
    if "w \<in> set (butlast ?ws)" for w
  proof -
    from that have "length w = 500" by (rule spec_windows_butlast)
    moreover have "length (leading_ws w @ strip w @ trailing_ws w) = length w"
      by (simp only: strip_decomp)
    ultimately show ?thesis by simp
  qed
  from a b c show ?thesis by blast
qed

lemma spec_windows_600:
  "spec_windows 500 (replicate 600 (97::nat)) = [replicate 500 97, replicate 100 97]"
  by (simp add: spec_windows.simps)

theorem chunk_text_budget_witness:
  "chunk_text (\<lambda>s. s) (replicate 600 97) CHUNK_SIZE = Some [replicate 500 97, replicate 100 97]
   \<and> length (replicate 500 (97::nat)) \<le> 500
   \<and> length (leading_ws (replicate 500 97)) + length (strip (replicate 500 97))
       + length (trailing_ws (replicate 500 97)) = 500"
  using chunk_text_budget [of "\<lambda>s. s" "replicate 600 97"]
  by (simp add: spec_windows_600 strip_replicate isspace_def)

section \<open>The loops of process_extracted_file\<close>

lemma length_enumerate_from [simp]: "length (enumerate_from i xs) = length xs"
  by (induction xs arbitrary: i) auto

lemma map_snd_enumerate_from [simp]: "map snd (enumerate_from i xs) = xs"
  by (induction xs arbitrary: i) auto

lemma map_fst_enumerate_from:
  "map fst (enumerate_from i xs) = map (\<lambda>k. i + int k) [0..<length xs]"
proof (induction xs arbitrary: i)
  case Nil
  show ?case by simp
next
  case (Cons x xs)
  have "map (\<lambda>k. i + int k) [0..<Suc (length xs)]
        = i # map (\<lambda>k. i + 1 + int k) [0..<length xs]"
    by (simp add: upt_rec [of 0] map_Suc_upt [symmetric] del: upt_Suc)
  with Cons show ?case by simp
qed

lemma chunks_loop_append:
  "chunks_loop fp i st xs acc =
     acc @ map (\<lambda>(j, c). \<lparr>file_path = fp, page_idx = i, section_title = st,
                           chunk_index = j, content = c\<rparr>) xs"
  by (induction xs arbitrary: acc) auto

lemma pages_loop_spec:
  "pages_loop clean fp tc ps acc =
     Some (acc @ concat (map (\<lambda>(i, t). spec_page_records clean fp tc i t) ps))"
proof (induction ps arbitrary: acc)
  case Nil
  show ?case by simp
next
  case (Cons p ps)
  obtain i t where p: "p = (i, t)" by (cases p)
  have ct: "chunk_text clean t CHUNK_SIZE = Some (spec_chunks 500 (clean t))"
    by (simp add: chunk_text_spec CHUNK_SIZE_def)
  show ?case
    by (simp add: p ct Cons chunks_loop_append spec_page_records_def)
qed

lemma process_extracted_file_spec:
  "process_extracted_file clean jd =
     Some (concat (map (\<lambda>(i, t). spec_page_records clean (src_file_path jd) (toc jd) i t)
                     (enumerate_from 0 (pages_text jd))))"
  by (simp add: process_extracted_file_def pages_loop_spec)

section \<open>The records of a page\<close>

lemma spec_page_records_fields:
  assumes "r \<in> set (spec_page_records clean fp tc i t)"
  shows "page_idx r = i" and "file_path r = fp"
    and "section_title r = get_section_of_page i tc" and "content r \<noteq> []"
proof -
  from assms obtain j c where jc: "(j, c) \<in> set (enumerate_from 0 (spec_chunks 500 (clean t)))"
    and r: "r = \<lparr>file_path = fp, page_idx = i, section_title = get_section_of_page i tc,
                 chunk_index = j, content = c\<rparr>"
    by (auto simp: spec_page_records_def)
  from r show "page_idx r = i" "file_path r = fp"
    "section_title r = get_section_of_page i tc" by simp_all
  from jc have "c \<in> snd ` set (enumerate_from 0 (spec_chunks 500 (clean t)))" by force
  then have "c \<in> set (map snd (enumerate_from 0 (spec_chunks 500 (clean t))))"
    by (simp only: set_map)
  then have "c \<in> set (spec_chunks 500 (clean t))" by simp
  then have "c \<noteq> []" by (simp add: spec_chunks_def)
  with r show "content r \<noteq> []" by simp
qed

lemma length_spec_page_records:
  "length (spec_page_records clean fp tc i t) = length (spec_chunks 500 (clean t))"
  by (simp add: spec_page_records_def)

lemma chunk_index_spec_page_records:
  "map chunk_index (spec_page_records clean fp tc i t)
   = map int [0..<length (spec_chunks 500 (clean t))]"
proof -
  have "map chunk_index (spec_page_records clean fp tc i t)
        = map fst (enumerate_from 0 (spec_chunks 500 (clean t)))"
    by (simp add: spec_page_records_def case_prod_unfold)
  then show ?thesis by (simp add: map_fst_enumerate_from)
qed

lemma filter_page_spec_page_records:
  "filter (\<lambda>r. page_idx r = i) (spec_page_records clean fp tc k t)
   = (if i = k then spec_page_records clean fp tc k t else [])"
proof (cases "i = k")
  case True
  then have "\<forall>r \<in> set (spec_page_records clean fp tc k t). page_idx r = i"
    by (auto dest: spec_page_records_fields(1))
  with True show ?thesis by simp
next
  case False
  then have "\<forall>r \<in> set (spec_page_records clean fp tc k t). page_idx r \<noteq> i"
    by (auto dest: spec_page_records_fields(1))
  with False show ?thesis by (simp add: filter_empty_conv)
qed

lemma records_of_page:
  "filter (\<lambda>r. page_idx r = i)
     (concat (map (\<lambda>(j, t). spec_page_records clean fp tc j t) (enumerate_from k ps)))
   = (if k \<le> i \<and> i < k + int (length ps)
      then spec_page_records clean fp tc i (ps ! nat (i - k)) else [])"
proof (induction ps arbitrary: k)
  case Nil
  show ?case by auto
next
  case (Cons p ps)
  show ?case
  proof (cases "i = k")
    case True
    have "filter (\<lambda>r. page_idx r = i)
            (concat (map (\<lambda>(j, t). spec_page_records clean fp tc j t)
                       (enumerate_from (k + 1) ps)))
          = (if k + 1 \<le> i \<and> i < k + 1 + int (length ps)
             then spec_page_records clean fp tc i (ps ! nat (i - (k + 1))) else [])"
      by (rule Cons)
    with True show ?thesis
      by (simp add: filter_page_spec_page_records)
  next
    case False
    have nth: "(p # ps) ! nat (i - k) = ps ! nat (i - (k + 1))" if "k < i"
    proof -
      from that have "nat (i - k) = Suc (nat (i - (k + 1)))" by simp
      then show ?thesis by simp
    qed
    have ar: "nat (i - k) - Suc 0 = nat (i - (k + 1))" by simp
    from False show ?thesis
      by (auto simp: filter_page_spec_page_records Cons nth ar)
  qed
qed

text \<open>
  Claim C4. \<open>process_extracted_file\<close> returns for every document, and in its result the
  chunk indices of the records of each page are 0, 1, ..., k - 1 in this order, where k, the
  number of records of the page, is the number of windows of the cleaned page text that are
  not whitespace only: the numbering skips the dropped windows. The content of every record
  is non-empty.
\<close>

theorem chunk_index_contiguous:
  "\<exists>rs. process_extracted_file clean jd = Some rs
      \<and> (\<forall>i. map chunk_index (filter (\<lambda>r. page_idx r = i) rs)
               = map int [0..<length (filter (\<lambda>r. page_idx r = i) rs)])
      \<and> (\<forall>i < length (pages_text jd).
            length (filter (\<lambda>r. page_idx r = int i) rs)
            = length (filter (\<lambda>w. strip w \<noteq> [])
                        (spec_windows 500 (clean (pages_text jd ! i)))))
      \<and> (\<forall>r \<in> set rs. content r \<noteq> [])"
proof -
  let ?spr = "\<lambda>(i, t). spec_page_records clean (src_file_path jd) (toc jd) i t"
  let ?rs = "concat (map ?spr (enumerate_from 0 (pages_text jd)))"
  have a: "process_extracted_file clean jd = Some ?rs"
    by (rule process_extracted_file_spec)
  have b: "map chunk_index (filter (\<lambda>r. page_idx r = i) ?rs)
           = map int [0..<length (filter (\<lambda>r. page_idx r = i) ?rs)]" for i
    by (simp add: records_of_page chunk_index_spec_page_records length_spec_page_records)
  have c: "length (filter (\<lambda>r. page_idx r = int i) ?rs)
           = length (filter (\<lambda>w. strip w \<noteq> []) (spec_windows 500 (clean (pages_text jd ! i))))"
    if "i < length (pages_text jd)" for i
  proof -
    have "length (filter (\<lambda>c. c \<noteq> []) (map strip ws)) = length (filter (\<lambda>w. strip w \<noteq> []) ws)"
      for ws :: "pystr list"
      by (induction ws) auto
    with that show ?thesis
      by (simp add: records_of_page length_spec_page_records spec_chunks_def)
  qed
  have d: "content r \<noteq> []" if "r \<in> set ?rs" for r
  proof -
    from that obtain i t where "r \<in> set (spec_page_records clean (src_file_path jd) (toc jd) i t)"
      by auto
    then show ?thesis by (rule spec_page_records_fields(4))
  qed
  from a b c d show ?thesis by blast
qed


lemma spec_windows_example:
  "spec_windows 500 (replicate 500 (97::nat) @ replicate 500 32 @ replicate 3 98)
   = [replicate 500 97, replicate 500 32, replicate 3 98]"
  by (simp add: spec_windows.simps)

lemma spec_chunks_example:
  "spec_chunks 500 (replicate 500 (97::nat) @ replicate 500 32 @ replicate 3 98)
   = [replicate 500 97, replicate 3 98]"
  by (simp add: spec_chunks_def spec_windows_example strip_replicate strip_empty_iff isspace_def)

lemma process_example:
  "process_extracted_file (\<lambda>s. s)
     \<lparr>src_file_path = str ''a.pdf'', toc = [],
      pages_text = [replicate 500 97 @ replicate 500 32 @ replicate 3 98]\<rparr>
   = Some [\<lparr>file_path = str ''a.pdf'', page_idx = 0, section_title = default_section,
             chunk_index = 0, content = replicate 500 97\<rparr>,
           \<lparr>file_path = str ''a.pdf'', page_idx = 0, section_title = default_section,
             chunk_index = 1, content = replicate 3 98\<rparr>]"
  by (simp add: process_extracted_file_spec spec_page_records_def spec_chunks_example
        get_section_of_page_def)

theorem chunk_index_contiguous_witness:
  "process_extracted_file (\<lambda>s. s)
     \<lparr>src_file_path = str ''a.pdf'', toc = [],
      pages_text = [replicate 500 97 @ replicate 500 32 @ replicate 3 98]\<rparr>
   = Some [\<lparr>file_path = str ''a.pdf'', page_idx = 0, section_title = default_section,
             chunk_index = 0, content = replicate 500 97\<rparr>,
           \<lparr>file_path = str ''a.pdf'', page_idx = 0, section_title = default_section,
             chunk_index = 1, content = replicate 3 98\<rparr>]
   \<and> length (filter (\<lambda>w. strip w \<noteq> [])
         (spec_windows 500 (replicate 500 (97::nat) @ replicate 500 32 @ replicate 3 98))) = 2
   \<and> replicate 500 (97::nat) \<noteq> [] \<and> replicate 3 (98::nat) \<noteq> []"
  using chunk_index_contiguous [of "\<lambda>s. s"
     "\<lparr>src_file_path = str ''a.pdf'', toc = [],
       pages_text = [replicate 500 97 @ replicate 500 32 @ replicate 3 98]\<rparr>"]
  by (simp add: process_example)

section \<open>Order of the records and pages without text\<close>

lemma enumerate_from_fst_ge: "(j, x) \<in> set (enumerate_from k xs) \<Longrightarrow> k \<le> j"
  by (induction xs arbitrary: k) force+

lemma sorted_wrt_enumerate_from: "sorted_wrt (\<lambda>a b. fst a < fst b) (enumerate_from k xs)"
proof (induction xs arbitrary: k)
  case Nil
  show ?case by simp
next
  case (Cons x xs)
  have "k < fst b" if "b \<in> set (enumerate_from (k + 1) xs)" for b
    using that enumerate_from_fst_ge [of "fst b" "snd b" "k + 1" xs] by simp
  with Cons show ?case by simp
qed

lemma sorted_wrt_spec_page_records:
  "sorted_wrt record_before (spec_page_records clean fp tc i t)"
proof -
  have "sorted_wrt (\<lambda>a b. fst a < fst b) (enumerate_from 0 (spec_chunks 500 (clean t)))"
    by (rule sorted_wrt_enumerate_from)
  then show ?thesis
    by (simp add: spec_page_records_def sorted_wrt_map record_before_def case_prod_unfold)
qed

lemma pages_page_idx_ge:
  assumes "r \<in> set (concat (map (\<lambda>(j, t). spec_page_records clean fp tc j t)
                              (enumerate_from k ps)))"
  shows "k \<le> page_idx r"
proof -
  from assms obtain j t where jt: "(j, t) \<in> set (enumerate_from k ps)"
    and r: "r \<in> set (spec_page_records clean fp tc j t)" by auto
  from jt have "k \<le> j" by (rule enumerate_from_fst_ge)
  with r show ?thesis by (simp add: spec_page_records_fields(1))
qed

lemma sorted_wrt_pages:
  "sorted_wrt record_before
     (concat (map (\<lambda>(j, t). spec_page_records clean fp tc j t) (enumerate_from k ps)))"
proof (induction ps arbitrary: k)
  case Nil
  show ?case by simp
next
  case (Cons p ps)
  have cross: "record_before r s"
    if "r \<in> set (spec_page_records clean fp tc k p)"
      and "s \<in> set (concat (map (\<lambda>(j, t). spec_page_records clean fp tc j t)
                               (enumerate_from (k + 1) ps)))" for r s
  proof -
    from that(1) have "page_idx r = k" by (rule spec_page_records_fields(1))
    moreover from that(2) have "k + 1 \<le> page_idx s" by (rule pages_page_idx_ge)
    ultimately show ?thesis by (simp add: record_before_def)
  qed
  show ?case
    using Cons [of "k + 1"] cross
    by (simp add: sorted_wrt_append sorted_wrt_spec_page_records)
qed

text \<open>
  Claim C10. In the list \<open>process_extracted_file\<close> returns, the page indices never
  decrease, and of two records the earlier one has the smaller page index or, on the same
  page, the smaller chunk index; every record has the document's file path and the section
  title that \<open>get_section_of_page\<close> gives for the record's own page index.
\<close>

theorem records_ordered:
  "\<exists>rs. process_extracted_file clean jd = Some rs
      \<and> sorted (map page_idx rs)
      \<and> sorted_wrt record_before rs
      \<and> (\<forall>r \<in> set rs. file_path r = src_file_path jd
            \<and> section_title r = get_section_of_page (page_idx r) (toc jd))"
proof -
  let ?spr = "\<lambda>(i, t). spec_page_records clean (src_file_path jd) (toc jd) i t"
  let ?rs = "concat (map ?spr (enumerate_from 0 (pages_text jd)))"
  have a: "process_extracted_file clean jd = Some ?rs"
    by (rule process_extracted_file_spec)
  have c: "sorted_wrt record_before ?rs" by (rule sorted_wrt_pages)
  have "sorted_wrt (\<lambda>r s. page_idx r \<le> page_idx s) ?rs"
    by (rule sorted_wrt_mono_rel [OF _ c]) (auto simp: record_before_def)
  then have b: "sorted (map page_idx ?rs)" by (simp only: sorted_map)
  have d: "file_path r = src_file_path jd
           \<and> section_title r = get_section_of_page (page_idx r) (toc jd)"
    if "r \<in> set ?rs" for r
  proof -
    from that obtain i t where "r \<in> set (spec_page_records clean (src_file_path jd) (toc jd) i t)"
      by auto
    then show ?thesis by (simp add: spec_page_records_fields)
  qed
  from a b c d show ?thesis by blast
qed

text \<open>
  Claim C9. For a page whose cleaned text is empty, \<open>chunk_text\<close> returns the empty list,
  whatever the chunk size. \<open>process_extracted_file\<close> returns for the whole document; its
  result has no record of that page, and the records of every page are what that page
  alone gives rise to.
\<close>

theorem empty_page_no_chunks:
  assumes "i < length (pages_text jd)" and "clean (pages_text jd ! i) = []"
  shows "chunk_text clean (pages_text jd ! i) chunk_size = Some []
         \<and> (\<exists>rs. process_extracted_file clean jd = Some rs
               \<and> filter (\<lambda>r. page_idx r = int i) rs = []
               \<and> (\<forall>j < length (pages_text jd).
                     filter (\<lambda>r. page_idx r = int j) rs
                     = spec_page_records clean (src_file_path jd) (toc jd) (int j)
                         (pages_text jd ! j)))"
proof -
  let ?spr = "\<lambda>(i, t). spec_page_records clean (src_file_path jd) (toc jd) i t"
  let ?rs = "concat (map ?spr (enumerate_from 0 (pages_text jd)))"
  have a: "chunk_text clean (pages_text jd ! i) chunk_size = Some []"
    using assms(2) by (rule chunk_text_empty)
  have b: "process_extracted_file clean jd = Some ?rs"
    by (rule process_extracted_file_spec)
  have d: "filter (\<lambda>r. page_idx r = int j) ?rs
           = spec_page_records clean (src_file_path jd) (toc jd) (int j) (pages_text jd ! j)"
    if "j < length (pages_text jd)" for j
    using that by (simp add: records_of_page)
  have "spec_windows 500 [] = ([] :: pystr list)" by (subst spec_windows.simps) simp
  then have "spec_page_records clean (src_file_path jd) (toc jd) (int i) (pages_text jd ! i) = []"
    using assms(2) by (simp add: spec_page_records_def spec_chunks_def)
  with d [OF assms(1)] have c: "filter (\<lambda>r. page_idx r = int i) ?rs = []" by simp
  from a b c d show ?thesis by blast
qed


lemma spec_chunks_short:
  assumes "s \<noteq> []" "length s \<le> 500" "\<not> isspace (hd s)" "\<not> isspace (last s)"
  shows "spec_chunks 500 s = [s]"
proof -
  have e: "spec_windows 500 ([] :: pystr) = []" by (subst spec_windows.simps) simp
  from assms(1,2) have "spec_windows 500 s = [s]"
    by (subst spec_windows.simps) (simp add: e)
  moreover from assms have "strip s = s" by (intro strip_id)
  ultimately show ?thesis using assms(1) by (simp add: spec_chunks_def)
qed

lemma process_two_pages:
  "process_extracted_file (\<lambda>s. s)
     \<lparr>src_file_path = str ''a.pdf'', toc = [(1, str ''Intro'', 1)],
      pages_text = [str ''ab'', str ''cd'']\<rparr>
   = Some [\<lparr>file_path = str ''a.pdf'', page_idx = 0, section_title = str ''Intro'',
             chunk_index = 0, content = str ''ab''\<rparr>,
           \<lparr>file_path = str ''a.pdf'', page_idx = 1, section_title = str ''Intro'',
             chunk_index = 0, content = str ''cd''\<rparr>]"
  by (simp add: process_extracted_file_spec spec_page_records_def spec_chunks_short
        get_section_of_page_def str_def isspace_def)

theorem records_ordered_witness:
  "process_extracted_file (\<lambda>s. s)
     \<lparr>src_file_path = str ''a.pdf'', toc = [(1, str ''Intro'', 1)],
      pages_text = [str ''ab'', str ''cd'']\<rparr>
   = Some [\<lparr>file_path = str ''a.pdf'', page_idx = 0, section_title = str ''Intro'',
             chunk_index = 0, content = str ''ab''\<rparr>,
           \<lparr>file_path = str ''a.pdf'', page_idx = 1, section_title = str ''Intro'',
             chunk_index = 0, content = str ''cd''\<rparr>]
   \<and> record_before
         \<lparr>file_path = str ''a.pdf'', page_idx = 0, section_title = str ''Intro'',
           chunk_index = 0, content = str ''ab''\<rparr>
         \<lparr>file_path = str ''a.pdf'', page_idx = 1, section_title = str ''Intro'',
           chunk_index = 0, content = str ''cd''\<rparr>
   \<and> get_section_of_page 1 [(1, str ''Intro'', 1)] = str ''Intro''"
  using records_ordered [of "\<lambda>s. s"
     "\<lparr>src_file_path = str ''a.pdf'', toc = [(1, str ''Intro'', 1)],
       pages_text = [str ''ab'', str ''cd'']\<rparr>"]
  by (simp add: process_two_pages)

lemma process_empty_page:
  "process_extracted_file (\<lambda>s. s)
     \<lparr>src_file_path = str ''a.pdf'', toc = [], pages_text = [str ''ab'', [], str ''cd'']\<rparr>
   = Some [\<lparr>file_path = str ''a.pdf'', page_idx = 0, section_title = default_section,
             chunk_index = 0, content = str ''ab''\<rparr>,
           \<lparr>file_path = str ''a.pdf'', page_idx = 2, section_title = default_section,
             chunk_index = 0, content = str ''cd''\<rparr>]"
proof -
  have e: "spec_chunks 500 [] = []"
    by (simp add: spec_chunks_def spec_windows.simps)
  show ?thesis
    by (simp add: process_extracted_file_spec spec_page_records_def spec_chunks_short e
          get_section_of_page_def str_def isspace_def)
qed

theorem empty_page_no_chunks_witness:
  "(1::nat) < length [str ''ab'', [], str ''cd'']
   \<and> (\<lambda>s. s) ([str ''ab'', [], str ''cd''] ! 1) = []
   \<and> chunk_text (\<lambda>s. s) [] CHUNK_SIZE = Some []
   \<and> process_extracted_file (\<lambda>s. s)
       \<lparr>src_file_path = str ''a.pdf'', toc = [], pages_text = [str ''ab'', [], str ''cd'']\<rparr>
     = Some [\<lparr>file_path = str ''a.pdf'', page_idx = 0, section_title = default_section,
               chunk_index = 0, content = str ''ab''\<rparr>,
             \<lparr>file_path = str ''a.pdf'', page_idx = 2, section_title = default_section,
               chunk_index = 0, content = str ''cd''\<rparr>]"
  using empty_page_no_chunks [of 1
     "\<lparr>src_file_path = str ''a.pdf'', toc = [], pages_text = [str ''ab'', [], str ''cd'']\<rparr>"
     "\<lambda>s. s" CHUNK_SIZE]
  by (simp add: process_empty_page)

section \<open>The end-to-end example\<close>

lemma spec_windows_1200:
  assumes "length s = 1200"
  shows "spec_windows 500 s = [take 500 s, take 500 (drop 500 s), drop 1000 s]"
proof -
  have e: "spec_windows 500 ([] :: 'a list) = []" by (subst spec_windows.simps) simp
  from assms have s: "s \<noteq> []" by auto
  from assms have d1: "drop 500 s \<noteq> []" by auto
  from assms have d2: "drop 1000 s \<noteq> []" by auto
  have 1: "spec_windows 500 s = take 500 s # spec_windows 500 (drop 500 s)"
    using s by (subst spec_windows.simps) simp
  have 2: "spec_windows 500 (drop 500 s)
           = take 500 (drop 500 s) # spec_windows 500 (drop 1000 s)"
    using d1 by (subst spec_windows.simps) simp
  have 3: "spec_windows 500 (drop 1000 s) = [drop 1000 s]"
    using d2 assms by (subst spec_windows.simps) (simp add: e)
  from 1 2 3 show ?thesis by simp
qed

lemma strip_id_nth:
  assumes "0 < length w" "\<not> isspace (w ! 0)" "\<not> isspace (w ! (length w - 1))"
  shows "strip w = w"
proof -
  from assms(1) have ne: "w \<noteq> []" by auto
  from ne assms(2) have "\<not> isspace (hd w)" by (simp add: hd_conv_nth)
  moreover from ne assms(3) have "\<not> isspace (last w)" by (simp add: last_conv_nth)
  ultimately show ?thesis using ne by (intro strip_id)
qed

lemma spec_chunks_1200:
  assumes len: "length s = 1200"
    and ns: "\<not> isspace (s ! 0)" "\<not> isspace (s ! 499)" "\<not> isspace (s ! 500)"
      "\<not> isspace (s ! 999)" "\<not> isspace (s ! 1000)" "\<not> isspace (s ! 1199)"
  shows "spec_chunks 500 s = [take 500 s, take 500 (drop 500 s), drop 1000 s]"
proof -
  have a: "strip (take 500 s) = take 500 s"
    using len ns(1,2) by (intro strip_id_nth) simp_all
  have b: "strip (take 500 (drop 500 s)) = take 500 (drop 500 s)"
    using len ns(3,4) by (intro strip_id_nth) simp_all
  have c: "strip (drop 1000 s) = drop 1000 s"
    using len ns(5,6) by (intro strip_id_nth) simp_all
  show ?thesis
    using len by (auto simp: spec_chunks_def spec_windows_1200 [OF len] a b c)
qed

lemma spec_chunks_300:
  assumes len: "length s = 300" and ns: "\<not> isspace (s ! 0)" "\<not> isspace (s ! 299)"
  shows "spec_chunks 500 s = [s]"
proof -
  from len have ne: "s \<noteq> []" by auto
  from ne ns(1) have h: "\<not> isspace (hd s)" by (simp add: hd_conv_nth)
  from ne ns(2) len have l: "\<not> isspace (last s)" by (simp add: last_conv_nth)
  from ne h l len show ?thesis by (intro spec_chunks_short) simp_all
qed

text \<open>
  Claim C3. A document with the table of contents \<open>[(1, "Intro", 1), (1, "Methods", 2)]\<close>,
  a first page whose cleaned text has 1200 characters, none of those at the two ends of the
  three windows (positions 0, 499, 500, 999, 1000 and 1199) whitespace, and a second page
  whose cleaned text has 300 characters, the first and the last not whitespace, gives
  exactly four records: chunks 0, 1, 2 of page 0 with 500, 500 and 200 characters under
  "Intro", and chunk 0 of page 1 with 300 characters under "Methods".
\<close>

theorem end_to_end_example:
  assumes "length (clean p0) = 1200" and "length (clean p1) = 300"
    and "\<not> isspace (clean p0 ! 0)" and "\<not> isspace (clean p0 ! 499)"
    and "\<not> isspace (clean p0 ! 500)" and "\<not> isspace (clean p0 ! 999)"
    and "\<not> isspace (clean p0 ! 1000)" and "\<not> isspace (clean p0 ! 1199)"
    and "\<not> isspace (clean p1 ! 0)" and "\<not> isspace (clean p1 ! 299)"
  shows "process_extracted_file clean
           \<lparr>src_file_path = fp, toc = [(1, str ''Intro'', 1), (1, str ''Methods'', 2)],
            pages_text = [p0, p1]\<rparr>
         = Some [\<lparr>file_path = fp, page_idx = 0, section_title = str ''Intro'',
                   chunk_index = 0, content = take 500 (clean p0)\<rparr>,
                 \<lparr>file_path = fp, page_idx = 0, section_title = str ''Intro'',
                   chunk_index = 1, content = take 500 (drop 500 (clean p0))\<rparr>,
                 \<lparr>file_path = fp, page_idx = 0, section_title = str ''Intro'',
                   chunk_index = 2, content = drop 1000 (clean p0)\<rparr>,
                 \<lparr>file_path = fp, page_idx = 1, section_title = str ''Methods'',
                   chunk_index = 0, content = clean p1\<rparr>]
         \<and> length (take 500 (clean p0)) = 500
         \<and> length (take 500 (drop 500 (clean p0))) = 500
         \<and> length (drop 1000 (clean p0)) = 200
         \<and> length (clean p1) = 300"
proof -
  have c0: "spec_chunks 500 (clean p0)
            = [take 500 (clean p0), take 500 (drop 500 (clean p0)), drop 1000 (clean p0)]"
    using assms by (intro spec_chunks_1200)
  have c1: "spec_chunks 500 (clean p1) = [clean p1]"
    using assms by (intro spec_chunks_300)
  have s0: "get_section_of_page 0 [(1, str ''Intro'', 1), (1, str ''Methods'', 2)] = str ''Intro''"
    by (simp add: get_section_of_page_def)
  have s1: "get_section_of_page 1 [(1, str ''Intro'', 1), (1, str ''Methods'', 2)] = str ''Methods''"
    by (simp add: get_section_of_page_def)
  have "process_extracted_file clean
           \<lparr>src_file_path = fp, toc = [(1, str ''Intro'', 1), (1, str ''Methods'', 2)],
            pages_text = [p0, p1]\<rparr>
         = Some [\<lparr>file_path = fp, page_idx = 0, section_title = str ''Intro'',
                   chunk_index = 0, content = take 500 (clean p0)\<rparr>,
                 \<lparr>file_path = fp, page_idx = 0, section_title = str ''Intro'',
                   chunk_index = 1, content = take 500 (drop 500 (clean p0))\<rparr>,
                 \<lparr>file_path = fp, page_idx = 0, section_title = str ''Intro'',
                   chunk_index = 2, content = drop 1000 (clean p0)\<rparr>,
                 \<lparr>file_path = fp, page_idx = 1, section_title = str ''Methods'',
                   chunk_index = 0, content = clean p1\<rparr>]"
    by (simp add: process_extracted_file_spec spec_page_records_def c0 c1 s0 s1)
  with assms(1,2) show ?thesis by simp
qed

theorem end_to_end_example_witness:
  "length ((\<lambda>s. s) (replicate 1200 (97::nat))) = 1200
   \<and> length ((\<lambda>s. s) (replicate 300 (98::nat))) = 300
   \<and> process_extracted_file (\<lambda>s. s)
       \<lparr>src_file_path = str ''a.pdf'', toc = [(1, str ''Intro'', 1), (1, str ''Methods'', 2)],
        pages_text = [replicate 1200 97, replicate 300 98]\<rparr>
     = Some [\<lparr>file_path = str ''a.pdf'', page_idx = 0, section_title = str ''Intro'',
               chunk_index = 0, content = replicate 500 97\<rparr>,
             \<lparr>file_path = str ''a.pdf'', page_idx = 0, section_title = str ''Intro'',
               chunk_index = 1, content = replicate 500 97\<rparr>,
             \<lparr>file_path = str ''a.pdf'', page_idx = 0, section_title = str ''Intro'',
               chunk_index = 2, content = replicate 200 97\<rparr>,
             \<lparr>file_path = str ''a.pdf'', page_idx = 1, section_title = str ''Methods'',
               chunk_index = 0, content = replicate 300 98\<rparr>]"
  using end_to_end_example [of "\<lambda>s. s" "replicate 1200 97" "replicate 300 98" "str ''a.pdf''"]
  by (simp add: isspace_def)

section \<open>The extraction cache\<close>

lemma demo_dir: "ensure_user_dir (demo_env fr) (str ''al'') = str ''data/user_uploads/al''"
  by (simp add: ensure_user_dir_def demo_env_def str_def)

lemma demo_basename:
  "fst (path_splitext (demo_env fr) (path_basename (demo_env fr) (str ''data/user_uploads/al/a.pdf'')))
   = str ''a''"
  by (simp add: demo_env_def str_def)

lemma demo_splitext: "fst (path_splitext (demo_env fr) (str ''a.pdf'')) = str ''a''"
  by (simp add: demo_env_def str_def)

lemma demo_paths:
  "cache_paths (demo_env fr) (str ''data/user_uploads/al'') (str ''a'')
   = (str ''data/user_uploads/al/a_sections.json'', str ''data/user_uploads/al/a_index.pkl'')"
  by (simp add: cache_paths_def demo_env_def str_def)

text \<open>
  Claim C6. When the wait for the extraction is over before the worker is done and the
  extraction ends later, \<open>process_pdf\<close> raises \<open>RuntimeError\<close> with the message of the timeout
  and leaves every file as it was, the two cache files among them. It is told apart from
  the other failures of the extraction by that message: another exception of the
  extraction goes on unchanged, also with the files as they were. When the extraction never
  ends, the call of \<open>process_pdf\<close> never ends: no error is raised, against the claim and
  against the timeout guard that the docstring of \<open>process_pdf\<close> promises.
\<close>

theorem process_pdf_timeout:
  "(future_result E pdf_path timeout = WaitTimedOut True \<longrightarrow>
      process_pdf E files pdf_path user_dir timeout
      = Some (Inl (RuntimeError (str ''PDF extraction timed out (over 2 minutes).'')), files))
   \<and> (future_result E pdf_path timeout = WaitTimedOut False \<longrightarrow>
        process_pdf E files pdf_path user_dir timeout = None)
   \<and> (\<forall>e. future_result E pdf_path timeout = Raised e \<and> e \<noteq> TimeoutError \<longrightarrow>
          process_pdf E files pdf_path user_dir timeout = Some (Inl e, files))"
  by (simp add: process_pdf_def)

theorem process_pdf_timeout_witness:
  "future_result (demo_env (\<lambda>p t. WaitTimedOut True)) (str ''data/user_uploads/al/a.pdf'')
     EXTRACT_TIMEOUT = WaitTimedOut True
   \<and> process_pdf (demo_env (\<lambda>p t. WaitTimedOut True))
       [str ''data/user_uploads/al/a.pdf'' \<mapsto> PdfBytes]
       (str ''data/user_uploads/al/a.pdf'') (str ''data/user_uploads/al'') EXTRACT_TIMEOUT
     = Some (Inl (RuntimeError (str ''PDF extraction timed out (over 2 minutes).'')),
             [str ''data/user_uploads/al/a.pdf'' \<mapsto> PdfBytes])
   \<and> future_result (demo_env (\<lambda>p t. WaitTimedOut False)) (str ''data/user_uploads/al/a.pdf'')
       EXTRACT_TIMEOUT = WaitTimedOut False
   \<and> process_pdf (demo_env (\<lambda>p t. WaitTimedOut False))
       [str ''data/user_uploads/al/a.pdf'' \<mapsto> PdfBytes]
       (str ''data/user_uploads/al/a.pdf'') (str ''data/user_uploads/al'') EXTRACT_TIMEOUT
     = None
   \<and> future_result (demo_env (\<lambda>p t. Raised (OtherException (str ''FileDataError''))))
       (str ''data/user_uploads/al/a.pdf'') EXTRACT_TIMEOUT
     = Raised (OtherException (str ''FileDataError''))
   \<and> process_pdf (demo_env (\<lambda>p t. Raised (OtherException (str ''FileDataError''))))
       [str ''data/user_uploads/al/a.pdf'' \<mapsto> PdfBytes]
       (str ''data/user_uploads/al/a.pdf'') (str ''data/user_uploads/al'') EXTRACT_TIMEOUT
     = Some (Inl (OtherException (str ''FileDataError'')),
             [str ''data/user_uploads/al/a.pdf'' \<mapsto> PdfBytes])"
  using process_pdf_timeout [of "demo_env (\<lambda>p t. WaitTimedOut True)"
    "str ''data/user_uploads/al/a.pdf''" EXTRACT_TIMEOUT
    "[str ''data/user_uploads/al/a.pdf'' \<mapsto> PdfBytes]" "str ''data/user_uploads/al''"]
    process_pdf_timeout [of "demo_env (\<lambda>p t. WaitTimedOut False)"
    "str ''data/user_uploads/al/a.pdf''" EXTRACT_TIMEOUT
    "[str ''data/user_uploads/al/a.pdf'' \<mapsto> PdfBytes]" "str ''data/user_uploads/al''"]
    process_pdf_timeout [of "demo_env (\<lambda>p t. Raised (OtherException (str ''FileDataError'')))"
    "str ''data/user_uploads/al/a.pdf''" EXTRACT_TIMEOUT
    "[str ''data/user_uploads/al/a.pdf'' \<mapsto> PdfBytes]" "str ''data/user_uploads/al''"]
  by (simp add: demo_env_def)

lemma load_cache_fails:
  assumes "file_fails (json_load E) (files (fst (cache_paths E user_dir b)))
           \<or> file_fails (pickle_load E) (files (snd (cache_paths E user_dir b)))"
  shows "load_cache E files user_dir b = (None, None)"
proof -
  obtain sp ip where cp: "cache_paths E user_dir b = (sp, ip)"
    by (cases "cache_paths E user_dir b")
  from assms cp have "file_fails (json_load E) (files sp) \<or> file_fails (pickle_load E) (files ip)"
    by simp
  then show ?thesis
    by (auto simp: load_cache_def cp load_both_def file_fails_def
             split: option.splits sum.splits)
qed

lemma load_cache_loads:
  assumes "files (fst (cache_paths E user_dir b)) = Some sb"
    and "files (snd (cache_paths E user_dir b)) = Some ib"
    and "json_load E sb = Inr secs" and "pickle_load E ib = Inr idx"
  shows "load_cache E files user_dir b = (secs, idx)"
proof -
  obtain sp ip where cp: "cache_paths E user_dir b = (sp, ip)"
    by (cases "cache_paths E user_dir b")
  with assms show ?thesis by (simp add: load_cache_def load_both_def)
qed

lemma load_cache_some:
  assumes "load_cache E files user_dir b = (secs, idx)" and "secs \<noteq> None \<or> idx \<noteq> None"
  shows "\<exists>sb ib. files (fst (cache_paths E user_dir b)) = Some sb
                \<and> files (snd (cache_paths E user_dir b)) = Some ib
                \<and> json_load E sb = Inr secs \<and> pickle_load E ib = Inr idx"
proof -
  obtain sp ip where cp: "cache_paths E user_dir b = (sp, ip)"
    by (cases "cache_paths E user_dir b")
  from assms show ?thesis
    by (auto simp: load_cache_def cp load_both_def split: option.splits sum.splits)
qed

text \<open>
  Claim C7. If either cache file is missing or raises when loaded, \<open>_load_cache\<close> returns
  \<open>(None, None)\<close>; it returns a value other than \<open>None\<close> only when both files are there
  and both load. In \<open>load_existing_pdf\<close>, for a logged-in user and a PDF that exists, a
  cache with \<open>None\<close> for either part is rebuilt by \<open>process_pdf\<close>: the result is the
  rebuilt index, or the status message of a \<open>RuntimeError\<close> of the rebuild, or another
  exception of the rebuild; the exception of the load is never the result.
\<close>

theorem corrupt_cache_is_miss:
  assumes user: "username \<noteq> []" and name: "selected_name \<noteq> []"
    and pdf: "files (path_join E (ensure_user_dir E username) selected_name) \<noteq> None"
  shows "(file_fails (json_load E) (files (fst (cache_paths E user_dir b)))
          \<or> file_fails (pickle_load E) (files (snd (cache_paths E user_dir b)))
          \<longrightarrow> load_cache E files user_dir b = (None, None))
         \<and> (\<forall>secs idx. load_cache E files user_dir b = (secs, idx)
                \<and> (secs \<noteq> None \<or> idx \<noteq> None) \<longrightarrow>
                (\<exists>sb ib. files (fst (cache_paths E user_dir b)) = Some sb
                    \<and> files (snd (cache_paths E user_dir b)) = Some ib
                    \<and> json_load E sb = Inr secs \<and> pickle_load E ib = Inr idx))
         \<and> (fst (load_cache E files (ensure_user_dir E username)
                    (fst (path_splitext E selected_name))) = None
             \<or> snd (load_cache E files (ensure_user_dir E username)
                    (fst (path_splitext E selected_name))) = None
             \<longrightarrow> load_existing_pdf E files selected_name username
                 = (case process_pdf E files
                           (path_join E (ensure_user_dir E username) selected_name)
                           (ensure_user_dir E username) EXTRACT_TIMEOUT of
                      None \<Rightarrow> None
                    | Some (Inl (RuntimeError msg), files') \<Rightarrow>
                        Some (Inr (None, None, msg), files')
                    | Some (Inl e, files') \<Rightarrow> Some (Inl e, files')
                    | Some (Inr (secs, idx), files') \<Rightarrow>
                        Some (Inr (Some secs, Some idx, str ''Processed '' @ selected_name),
                              files')))"
proof -
  have a: "load_cache E files user_dir b = (None, None)"
    if "file_fails (json_load E) (files (fst (cache_paths E user_dir b)))
        \<or> file_fails (pickle_load E) (files (snd (cache_paths E user_dir b)))"
    using that by (rule load_cache_fails)
  have b: "\<exists>sb ib. files (fst (cache_paths E user_dir b)) = Some sb
                \<and> files (snd (cache_paths E user_dir b)) = Some ib
                \<and> json_load E sb = Inr secs \<and> pickle_load E ib = Inr idx"
    if "load_cache E files user_dir b = (secs, idx) \<and> (secs \<noteq> None \<or> idx \<noteq> None)"
    for secs idx
    using that load_cache_some [of E files user_dir b secs idx] by blast
  have c: "load_existing_pdf E files selected_name username
           = (case process_pdf E files (path_join E (ensure_user_dir E username) selected_name)
                     (ensure_user_dir E username) EXTRACT_TIMEOUT of
                None \<Rightarrow> None
              | Some (Inl (RuntimeError msg), files') \<Rightarrow> Some (Inr (None, None, msg), files')
              | Some (Inl e, files') \<Rightarrow> Some (Inl e, files')
              | Some (Inr (secs, idx), files') \<Rightarrow>
                  Some (Inr (Some secs, Some idx, str ''Processed '' @ selected_name), files'))"
    if miss: "fst (load_cache E files (ensure_user_dir E username)
                    (fst (path_splitext E selected_name))) = None
              \<or> snd (load_cache E files (ensure_user_dir E username)
                    (fst (path_splitext E selected_name))) = None"
  proof -
    from pdf obtain y
      where y: "files (path_join E (ensure_user_dir E username) selected_name) = Some y"
      by auto
    obtain s i where lc: "load_cache E files (ensure_user_dir E username)
                            (fst (path_splitext E selected_name)) = (s, i)"
      by (cases "load_cache E files (ensure_user_dir E username)
                   (fst (path_splitext E selected_name))")
    with miss have si: "s = None \<or> i = None" by simp
    show ?thesis
      using user name si
      by (simp add: load_existing_pdf_def lc y Let_def
               split: option.splits sum.splits exn.splits prod.splits)
  qed
  from a b c show ?thesis by blast
qed

lemma demo_corrupt_lookup:
  "demo_corrupt_files (str ''data/user_uploads/al/a.pdf'') = Some PdfBytes"
  "demo_corrupt_files (str ''data/user_uploads/al/a_sections.json'') = Some Garbled"
  "demo_corrupt_files (str ''data/user_uploads/al/a_index.pkl'') = Some (IndexPickle (Some [3]))"
  by (simp_all add: demo_corrupt_files_def str_def)

lemma demo_join: "path_join (demo_env fr) (str ''data/user_uploads/al'') (str ''a.pdf'')
                  = str ''data/user_uploads/al/a.pdf''"
  by (simp add: demo_env_def str_def)

lemma demo_chunks:
  "process_extracted_file (\<lambda>s. s) demo_extracted
   = Some [\<lparr>file_path = str ''data/user_uploads/al/a.pdf'', page_idx = 0,
             section_title = default_section, chunk_index = 0, content = str ''ab''\<rparr>]"
  by (simp add: demo_extracted_def process_extracted_file_spec spec_page_records_def
        spec_chunks_short get_section_of_page_def str_def isspace_def)

lemma demo_rebuild:
  "process_pdf (demo_env (\<lambda>p t. Returned demo_extracted)) demo_corrupt_files
     (str ''data/user_uploads/al/a.pdf'') (str ''data/user_uploads/al'') EXTRACT_TIMEOUT
   = Some (Inr ([[str ''title'' \<mapsto> JStr (str ''Intro'')]], [2]),
           demo_corrupt_files
             (str ''data/user_uploads/al/a_sections.json''
                \<mapsto> SectionsJson (Some [[str ''title'' \<mapsto> JStr (str ''Intro'')]]),
              str ''data/user_uploads/al/a_index.pkl'' \<mapsto> IndexPickle (Some [2])))"
proof -
  have ct: "clean_text (demo_env (\<lambda>p t. Returned demo_extracted)) = (\<lambda>s. s)"
    by (simp add: demo_env_def)
  have sec: "sections demo_extracted = [[str ''title'' \<mapsto> JStr (str ''Intro'')]]"
    by (simp add: demo_extracted_def)
  have fr: "future_result (demo_env (\<lambda>p t. Returned demo_extracted)) p t = Returned demo_extracted"
    for p t by (simp add: demo_env_def)
  have bci: "build_chunk_index (demo_env (\<lambda>p t. Returned demo_extracted)) chunks
             = Inr (map (\<lambda>r. length (content r)) chunks)" for chunks
    by (simp add: demo_env_def)
  have bsr: "build_section_reps (demo_env (\<lambda>p t. Returned demo_extracted)) raw idx = Inr raw"
    for raw idx by (simp add: demo_env_def)
  have jd: "json_dump (demo_env (\<lambda>p t. Returned demo_extracted)) x = (SectionsJson (Some x), None)"
    for x by (simp add: demo_env_def)
  have pd: "pickle_dump (demo_env (\<lambda>p t. Returned demo_extracted)) x = (IndexPickle (Some x), None)"
    for x by (simp add: demo_env_def)
  have len: "length (str ''ab'') = 2" by (simp add: str_def)
  show ?thesis
    by (simp add: process_pdf_def demo_basename fr ct demo_chunks bci bsr save_cache_def
          demo_paths jd pd sec len)
qed

theorem corrupt_cache_is_miss_witness:
  "str ''al'' \<noteq> [] \<and> str ''a.pdf'' \<noteq> []
   \<and> demo_corrupt_files (path_join (demo_env (\<lambda>p t. Returned demo_extracted))
        (ensure_user_dir (demo_env (\<lambda>p t. Returned demo_extracted)) (str ''al'')) (str ''a.pdf''))
       \<noteq> None
   \<and> file_fails (json_load (demo_env (\<lambda>p t. Returned demo_extracted)))
        (demo_corrupt_files (str ''data/user_uploads/al/a_sections.json''))
   \<and> load_cache (demo_env (\<lambda>p t. Returned demo_extracted)) demo_corrupt_files
        (str ''data/user_uploads/al'') (str ''a'') = (None, None)
   \<and> load_existing_pdf (demo_env (\<lambda>p t. Returned demo_extracted)) demo_corrupt_files
        (str ''a.pdf'') (str ''al'')
     = Some (Inr (Some [[str ''title'' \<mapsto> JStr (str ''Intro'')]], Some [2],
                  str ''Processed a.pdf''),
             demo_corrupt_files
               (str ''data/user_uploads/al/a_sections.json''
                  \<mapsto> SectionsJson (Some [[str ''title'' \<mapsto> JStr (str ''Intro'')]]),
                str ''data/user_uploads/al/a_index.pkl'' \<mapsto> IndexPickle (Some [2])))"
proof -
  let ?E = "demo_env (\<lambda>p t. Returned demo_extracted)"
  have ff: "file_fails (json_load ?E)
              (demo_corrupt_files (str ''data/user_uploads/al/a_sections.json''))"
    by (simp add: file_fails_def demo_corrupt_lookup demo_env_def)
  have ne: "str ''al'' \<noteq> []" "str ''a.pdf'' \<noteq> []" by (simp_all add: str_def)
  have pdf: "demo_corrupt_files (path_join ?E (ensure_user_dir ?E (str ''al'')) (str ''a.pdf''))
             \<noteq> None"
    by (simp add: demo_dir demo_join demo_corrupt_lookup)
  have msg: "str ''Processed '' @ str ''a.pdf'' = str ''Processed a.pdf''"
    by (simp add: str_def)
  from corrupt_cache_is_miss [where E = ?E and files = demo_corrupt_files
      and username = "str ''al''" and selected_name = "str ''a.pdf''"
      and user_dir = "str ''data/user_uploads/al''" and b = "str ''a''"] ff ne pdf
  show ?thesis
    by (simp add: demo_paths demo_dir demo_join demo_splitext demo_rebuild msg)
qed

lemma tag_section_fun: "tag_section b = (\<lambda>sec. sec(str ''file_name'' \<mapsto> JStr b))"
  by (rule ext) (simp add: tag_section_def)

lemma load_both_env:
  "load_both (E\<lparr>future_result := fr, build_chunk_index := bi, build_section_reps := bs,
               clean_text := ct\<rparr>) sb ib
   = load_both E sb ib"
  by (simp add: load_both_def split: sum.splits)

lemma load_cache_env:
  "load_cache (E\<lparr>future_result := fr, build_chunk_index := bi, build_section_reps := bs,
                clean_text := ct\<rparr>) files ud b
   = load_cache E files ud b"
  by (simp add: load_cache_def cache_paths_def load_both_env split: option.splits)

lemma uploads_loop_env:
  "uploads_loop (E\<lparr>future_result := fr, build_chunk_index := bi, build_section_reps := bs,
                  clean_text := ct\<rparr>) files ud ups acc
   = uploads_loop E files ud ups acc"
proof (induction ups arbitrary: acc)
  case Nil
  show ?case by simp
next
  case (Cons p ups)
  obtain x y where acc: "acc = (x, y)" by (cases acc)
  show ?case
    by (simp add: acc Cons Let_def load_cache_env split: prod.splits option.splits)
qed

lemma uploads_loop_spec:
  "uploads_loop E files user_dir ups (acc_s, acc_c)
   = (acc_s @ fst (spec_merge E files user_dir ups), acc_c @ snd (spec_merge E files user_dir ups))"
proof (induction ups arbitrary: acc_s acc_c)
  case Nil
  show ?case by (simp add: spec_merge_def map_filter_simps)
next
  case (Cons p ups)
  show ?case
  proof (cases "doc_cache E files user_dir p")
    case None
    then have step: "uploads_loop E files user_dir (p # ups) (acc_s, acc_c)
               = uploads_loop E files user_dir ups (acc_s, acc_c)"
      by (auto simp: doc_cache_def Let_def split: prod.splits option.splits)
    show ?thesis unfolding step Cons
      by (simp add: spec_merge_def map_filter_simps None Let_def)
  next
    case (Some d)
    obtain b secs idx where d: "d = (b, secs, idx)" by (cases d)
    from Some d have b: "b = fst (path_splitext E (path_basename E p))"
      and lc: "load_cache E files user_dir (fst (path_splitext E (path_basename E p)))
               = (Some secs, Some idx)"
      by (auto simp: doc_cache_def Let_def split: prod.splits option.splits)
    have step: "uploads_loop E files user_dir (p # ups) (acc_s, acc_c)
          = uploads_loop E files user_dir ups (acc_s @ map (tag_section b) secs, acc_c @ idx)"
      using lc b by (simp add: Let_def tag_section_fun)
    show ?thesis unfolding step Cons
      by (simp add: spec_merge_def map_filter_simps Some d Let_def)
  qed
qed

lemma load_all_cached_pdfs_spec:
  assumes "username \<noteq> []"
  shows "load_all_cached_pdfs E files users username
         = (let ups = (case users username of None \<Rightarrow> [] | Some u \<Rightarrow> uploads u);
                (secs, chunks) = spec_merge E files (ensure_user_dir E username) ups
            in if secs = [] then
                 (None, None,
                  if ups = [] then str ''No cached PDFs were found.''
                  else str ''No cached data found. Process PDFs first.'')
               else
                 (Some secs, Some chunks,
                  str ''Loaded cached data for '' @ decimal (length secs)
                  @ str '' sections across '' @ decimal (length ups) @ str '' PDFs''))"
proof -
  let ?ups = "case users username of None \<Rightarrow> [] | Some u \<Rightarrow> uploads u"
  have e: "spec_merge E files (ensure_user_dir E username) [] = ([], [])"
    by (simp add: spec_merge_def map_filter_simps)
  show ?thesis
    using assms
    by (cases "?ups = []")
       (simp_all add: load_all_cached_pdfs_def Let_def uploads_loop_spec e case_prod_unfold)
qed

text \<open>
  Claim C8, as amended. For a logged-in user, \<open>load_all_cached_pdfs\<close> returns the tagged
  sections of the cached documents concatenated in upload order and their chunk indexes
  concatenated, unless the concatenated sections are empty: then it returns
  \<open>(None, None)\<close> with a message, whatever the chunk indexes hold. The result does not depend
  on the extraction, the chunker's cleaning or the two builders, none of which is called,
  and a tagged section is the cached one with the key \<open>"file_name"\<close> set.
\<close>

theorem load_all_cached_pdfs_merge:
  assumes "username \<noteq> []"
  shows "load_all_cached_pdfs E files users username
         = (let ups = (case users username of None \<Rightarrow> [] | Some u \<Rightarrow> uploads u);
                (secs, chunks) = spec_merge E files (ensure_user_dir E username) ups
            in if secs = [] then
                 (None, None,
                  if ups = [] then str ''No cached PDFs were found.''
                  else str ''No cached data found. Process PDFs first.'')
               else
                 (Some secs, Some chunks,
                  str ''Loaded cached data for '' @ decimal (length secs)
                  @ str '' sections across '' @ decimal (length ups) @ str '' PDFs''))
         \<and> load_all_cached_pdfs
             (E\<lparr>future_result := fr, build_chunk_index := bi, build_section_reps := bs,
                clean_text := ct\<rparr>) files users username
           = load_all_cached_pdfs E files users username
         \<and> tag_section b sec (str ''file_name'') = Some (JStr b)
         \<and> (\<forall>k. k \<noteq> str ''file_name'' \<longrightarrow> tag_section b sec k = sec k)"
proof -
  have b: "load_all_cached_pdfs
             (E\<lparr>future_result := fr, build_chunk_index := bi, build_section_reps := bs,
                clean_text := ct\<rparr>) files users username
           = load_all_cached_pdfs E files users username"
    by (simp add: load_all_cached_pdfs_def uploads_loop_env ensure_user_dir_def Let_def)
  have c: "tag_section b sec (str ''file_name'') = Some (JStr b)"
    and d: "\<forall>k. k \<noteq> str ''file_name'' \<longrightarrow> tag_section b sec k = sec k"
    by (simp_all add: tag_section_def)
  from load_all_cached_pdfs_spec [OF assms] b c d show ?thesis by blast
qed

lemma demo_basenames:
  "fst (path_splitext (demo_env fr) (path_basename (demo_env fr) (str ''data/user_uploads/al/b.pdf'')))
   = str ''b''"
  "fst (path_splitext (demo_env fr) (path_basename (demo_env fr) (str ''data/user_uploads/al/c.pdf'')))
   = str ''c''"
  by (simp_all add: demo_env_def str_def)

lemma demo_paths_bc:
  "cache_paths (demo_env fr) (str ''data/user_uploads/al'') (str ''b'')
   = (str ''data/user_uploads/al/b_sections.json'', str ''data/user_uploads/al/b_index.pkl'')"
  "cache_paths (demo_env fr) (str ''data/user_uploads/al'') (str ''c'')
   = (str ''data/user_uploads/al/c_sections.json'', str ''data/user_uploads/al/c_index.pkl'')"
  by (simp_all add: cache_paths_def demo_env_def str_def)

lemma demo_cached_lookup:
  "demo_cached_files (str ''data/user_uploads/al/a_sections.json'')
   = Some (SectionsJson (Some [[str ''title'' \<mapsto> JStr (str ''Intro'')]]))"
  "demo_cached_files (str ''data/user_uploads/al/a_index.pkl'') = Some (IndexPickle (Some [1, 2]))"
  "demo_cached_files (str ''data/user_uploads/al/b_sections.json'')
   = Some (SectionsJson (Some [[str ''title'' \<mapsto> JStr (str ''Methods'')]]))"
  "demo_cached_files (str ''data/user_uploads/al/b_index.pkl'') = Some (IndexPickle (Some [3]))"
  "demo_cached_files (str ''data/user_uploads/al/c_sections.json'') = None"
  by (simp_all add: demo_cached_files_def str_def)

lemma demo_loads:
  "json_load (demo_env fr) (SectionsJson x) = Inr x"
  "pickle_load (demo_env fr) (IndexPickle y) = Inr y"
  by (simp_all add: demo_env_def)

lemma demo_cached_docs:
  "doc_cache (demo_env fr) demo_cached_files (str ''data/user_uploads/al'')
     (str ''data/user_uploads/al/a.pdf'')
   = Some (str ''a'', [[str ''title'' \<mapsto> JStr (str ''Intro'')]], [1, 2])"
  "doc_cache (demo_env fr) demo_cached_files (str ''data/user_uploads/al'')
     (str ''data/user_uploads/al/b.pdf'')
   = Some (str ''b'', [[str ''title'' \<mapsto> JStr (str ''Methods'')]], [3])"
  "doc_cache (demo_env fr) demo_cached_files (str ''data/user_uploads/al'')
     (str ''data/user_uploads/al/c.pdf'') = None"
  by (simp_all add: doc_cache_def demo_basename demo_basenames load_cache_def demo_paths
        demo_paths_bc demo_cached_lookup load_both_def demo_loads)

lemma demo_merge:
  "spec_merge (demo_env fr) demo_cached_files (str ''data/user_uploads/al'')
     [str ''data/user_uploads/al/a.pdf'', str ''data/user_uploads/al/c.pdf'',
      str ''data/user_uploads/al/b.pdf'']
   = ([tag_section (str ''a'') [str ''title'' \<mapsto> JStr (str ''Intro'')],
       tag_section (str ''b'') [str ''title'' \<mapsto> JStr (str ''Methods'')]], [1, 2, 3])"
  by (simp add: spec_merge_def map_filter_simps demo_cached_docs)

lemma demo_users_lookup:
  "demo_users (str ''al'')
   = Some \<lparr>password = str ''x'',
           uploads = [str ''data/user_uploads/al/a.pdf'', str ''data/user_uploads/al/c.pdf'',
                      str ''data/user_uploads/al/b.pdf''],
           prompts = []\<rparr>"
  "demo_one_upload (str ''al'')
   = Some \<lparr>password = str ''x'', uploads = [str ''data/user_uploads/al/a.pdf''],
           prompts = []\<rparr>"
  by (simp_all add: demo_users_def demo_one_upload_def)

lemma demo_message:
  "str ''Loaded cached data for '' @ decimal (Suc (Suc 0)) @ str '' sections across ''
     @ decimal (Suc (Suc (Suc 0))) @ str '' PDFs''
   = str ''Loaded cached data for 2 sections across 3 PDFs''"
  by (simp add: decimal.simps str_def)

theorem load_all_cached_pdfs_merge_witness:
  "str ''al'' \<noteq> []
   \<and> load_all_cached_pdfs (demo_env (\<lambda>p t. WaitTimedOut True)) demo_cached_files demo_users
       (str ''al'')
     = (Some [tag_section (str ''a'') [str ''title'' \<mapsto> JStr (str ''Intro'')],
              tag_section (str ''b'') [str ''title'' \<mapsto> JStr (str ''Methods'')]],
        Some [1, 2, 3], str ''Loaded cached data for 2 sections across 3 PDFs'')
   \<and> tag_section (str ''a'') [str ''title'' \<mapsto> JStr (str ''Intro'')] (str ''file_name'')
     = Some (JStr (str ''a''))"
proof -
  have ne: "str ''al'' \<noteq> []" by (simp add: str_def)
  note m = load_all_cached_pdfs_merge [where E = "demo_env (\<lambda>p t. WaitTimedOut True)"
      and files = demo_cached_files and users = demo_users and username = "str ''al''"
      and b = "str ''a''" and sec = "[str ''title'' \<mapsto> JStr (str ''Intro'')]"
      and fr = "\<lambda>p t. WaitTimedOut True" and bi = "\<lambda>c. Inr []" and bs = "\<lambda>r i. Inr []"
      and ct = "\<lambda>s. s", OF ne]
  have 1: "load_all_cached_pdfs (demo_env (\<lambda>p t. WaitTimedOut True)) demo_cached_files demo_users
             (str ''al'')
           = (Some [tag_section (str ''a'') [str ''title'' \<mapsto> JStr (str ''Intro'')],
                    tag_section (str ''b'') [str ''title'' \<mapsto> JStr (str ''Methods'')]],
              Some [1, 2, 3], str ''Loaded cached data for 2 sections across 3 PDFs'')"
    using m [THEN conjunct1]
    by (simp add: demo_users_lookup demo_dir demo_merge demo_message)
  have 2: "tag_section (str ''a'') [str ''title'' \<mapsto> JStr (str ''Intro'')] (str ''file_name'')
           = Some (JStr (str ''a''))"
    using m [THEN conjunct2, THEN conjunct2, THEN conjunct1] .
  from ne 1 2 show ?thesis by blast
qed

lemma demo_no_section_merge:
  "spec_merge (demo_env fr) demo_no_section_files (str ''data/user_uploads/al'')
     [str ''data/user_uploads/al/a.pdf''] = ([], [7])"
proof -
  have "demo_no_section_files (str ''data/user_uploads/al/a_sections.json'')
        = Some (SectionsJson (Some []))"
    "demo_no_section_files (str ''data/user_uploads/al/a_index.pkl'')
     = Some (IndexPickle (Some [7]))"
    by (simp_all add: demo_no_section_files_def str_def)
  then have "doc_cache (demo_env fr) demo_no_section_files (str ''data/user_uploads/al'')
               (str ''data/user_uploads/al/a.pdf'') = Some (str ''a'', [], [7])"
    by (simp add: doc_cache_def demo_basename load_cache_def demo_paths load_both_def demo_loads)
  then show ?thesis by (simp add: spec_merge_def map_filter_simps)
qed

text \<open>
  Claim C8 as stated fails for a cached document with no section and one chunk: the
  concatenation is the empty section list with the chunk index, the function returns
  \<open>(None, None)\<close>.
\<close>

theorem load_all_cached_pdfs_counterexample:
  "spec_merge (demo_env (\<lambda>p t. WaitTimedOut True)) demo_no_section_files
     (ensure_user_dir (demo_env (\<lambda>p t. WaitTimedOut True)) (str ''al''))
     [str ''data/user_uploads/al/a.pdf''] = ([], [7])
   \<and> load_all_cached_pdfs (demo_env (\<lambda>p t. WaitTimedOut True)) demo_no_section_files
       demo_one_upload (str ''al'')
     = (None, None, str ''No cached data found. Process PDFs first.'')
   \<and> \<not> (\<exists>msg. load_all_cached_pdfs (demo_env (\<lambda>p t. WaitTimedOut True)) demo_no_section_files
                 demo_one_upload (str ''al'')
               = (Some [], Some [7], msg))"
proof -
  have ne: "str ''al'' \<noteq> []" by (simp add: str_def)
  show ?thesis
    by (simp add: load_all_cached_pdfs_spec [OF ne] demo_users_lookup demo_dir
          demo_no_section_merge)
qed

end
